theory Spec2Isabelle
  imports Main "HOL-Library.Multiset" "HOL-Library.Sublist"
begin

section \<open>Data model\<close>

text \<open>
  The merge-preview and publish pipeline of \<^verbatim>\<open>ytmusic_merge_gui.py\<close>
  (\<^verbatim>\<open>PreviewWorker.run\<close>, \<^verbatim>\<open>PublishWorker.run\<close> and the helpers
  \<^verbatim>\<open>track_video_id\<close>, \<^verbatim>\<open>get_artist_text\<close>, \<^verbatim>\<open>get_duration_text\<close> and
  \<^verbatim>\<open>format_duration\<close>).

  Python strings are modelled as \<^typ>\<open>string\<close>, read as sequences of code points below 256.
  The dictionaries the remote client returns are records whose optional keys are option
  fields (\<open>None\<close>: the key is absent). Where the code calls a method on a value of such a
  dictionary, the value may also be one on which that call raises: the title of a listing
  entry and the entries of a track's artists list.
\<close>

text \<open>Python truthiness of an optional string: \<^verbatim>\<open>None\<close> and \<^verbatim>\<open>""\<close> are false.\<close>

definition truthy :: "string option \<Rightarrow> bool" where
  "truthy v = (case v of None \<Rightarrow> False | Some s \<Rightarrow> s \<noteq> [])"

text \<open>
  \<^verbatim>\<open>str.isspace\<close>, \<^verbatim>\<open>str.strip()\<close> and \<^verbatim>\<open>str.lower()\<close> on code points below 256:
  the whitespace characters are U+0009..U+000D, U+001C..U+0020, U+0085 and U+00A0; the
  upper-case letters are A..Z and U+00C0..U+00DE without U+00D7, each 32 below its
  lower-case letter.
\<close>

definition is_space :: "char \<Rightarrow> bool" where
  "is_space c =
     (let n = (of_char c :: nat)
      in (9 \<le> n \<and> n \<le> 13) \<or> (28 \<le> n \<and> n \<le> 32) \<or> n = 133 \<or> n = 160)"

definition strip :: "string \<Rightarrow> string" where
  "strip s = rev (dropWhile is_space (rev (dropWhile is_space s)))"

definition lower_char :: "char \<Rightarrow> char" where
  "lower_char c =
     (let n = (of_char c :: nat)
      in if (65 \<le> n \<and> n \<le> 90) \<or> (192 \<le> n \<and> n \<le> 222 \<and> n \<noteq> 215)
         then char_of (n + 32) else c)"

definition lower :: "string \<Rightarrow> string" where
  "lower s = map lower_char s"

text \<open>
  \<^verbatim>\<open>str(n)\<close> for a non-negative integer and for an integer, and the format
  \<^verbatim>\<open>{n:02d}\<close>, which pads to two characters with a zero.
\<close>

definition digit_char :: "nat \<Rightarrow> char" where
  "digit_char d = char_of (48 + d)"

function str_nat :: "nat \<Rightarrow> string" where
  "str_nat n = (if n < 10 then [digit_char n] else str_nat (n div 10) @ [digit_char (n mod 10)])"
  by pat_completeness auto
termination
  by (relation "measure (\<lambda>n. n)") auto

declare str_nat.simps [simp del]

definition str_int :: "int \<Rightarrow> string" where
  "str_int i = (if i < 0 then CHR ''-'' # str_nat (nat (- i)) else str_nat (nat i))"

definition two_digits :: "int \<Rightarrow> string" where
  "two_digits i = (if 0 \<le> i \<and> i < 10 then CHR ''0'' # str_int i else str_int i)"

text \<open>An exception, raised by the remote client or by the code itself; \<open>str_error\<close> is \<^verbatim>\<open>str(e)\<close>.\<close>

datatype error = Error string

fun str_error :: "error \<Rightarrow> string" where
  "str_error (Error m) = m"

text \<open>
  The value under the key \<^verbatim>\<open>title\<close> of a listing entry: the key is absent, or its value is
  a string, or its value is not a string (\<^verbatim>\<open>None\<close>, a number) and \<^verbatim>\<open>.strip()\<close> on it raises
  the given exception.
\<close>

datatype title_value = NoTitle | Title string | BadTitle error

text \<open>An entry of the library listing, with the two keys the workers read.\<close>

record playlist =
  p_title :: title_value
  p_playlistId :: "string option"

text \<open>
  An entry of the list under the key \<^verbatim>\<open>artists\<close> of a track: a dictionary with its
  optional key \<^verbatim>\<open>name\<close>, or a value that is not a dictionary (\<^verbatim>\<open>None\<close>, a string), on
  which \<^verbatim>\<open>.get\<close> raises the given exception.
\<close>

datatype artist = Artist "string option" | NotADict error

text \<open>
  A track as the remote client returns it, with the keys the workers and their helpers
  read. \<open>t_artists\<close> is \<open>None\<close> when the key is absent or its value is not a list.
  \<open>t_lengthSeconds\<close> is \<open>None\<close> when the key is absent, \<open>Some None\<close> when \<^verbatim>\<open>int(...)\<close> raises
  on its value and \<open>Some (Some n)\<close> when \<^verbatim>\<open>int(...)\<close> gives \<open>n\<close>.
\<close>

record track =
  t_videoId :: "string option"
  t_setVideoId :: "string option"
  t_title :: "string option"
  t_artists :: "artist list option"
  t_author :: "string option"
  t_artistsText :: "string option"
  t_duration :: "string option"
  t_length :: "string option"
  t_lengthText :: "string option"
  t_lengthSeconds :: "int option option"

text \<open>A selected source: \<^verbatim>\<open>{"title": ..., "playlistId": ...}\<close>.\<close>

record source_desc =
  src_title :: string
  src_playlistId :: string

text \<open>
  A row of the preview, the dictionary \<^verbatim>\<open>track_info\<close>; the key \<^verbatim>\<open>reason\<close> is present
  only on skipped rows.
\<close>

record track_info =
  title :: string
  artists :: string
  duration :: string
  source :: string
  video_id :: "string option"
  reason :: "string option"

text \<open>The local variables of the planning loops of \<^verbatim>\<open>PreviewWorker.run\<close>.\<close>

record plan_state =
  to_add :: "track_info list"
  skipped :: "track_info list"
  seen_ids :: "string set"
  total_tracks :: nat

text \<open>The statistics dictionary, one field per label.\<close>

record stats =
  total_tracks_processed :: nat
  tracks_to_add :: nat
  tracks_skipped :: nat
  already_in_destination :: nat
  duplicates_removed :: nat
  no_video_id :: nat
  destination_exists :: string

record preview_result =
  r_to_add :: "track_info list"
  r_skipped :: "track_info list"
  r_stats :: stats

text \<open>The terminal signals \<^verbatim>\<open>done.emit(...)\<close> of the two workers.\<close>

datatype preview_done = PreviewDone bool string "preview_result option"

datatype publish_done = PublishDone bool string string

text \<open>
  The remote calls a worker issues and the signals it emits, in the order they happen.
\<close>

datatype call =
    NewYTMusic string
  | GetLibraryPlaylists nat
  | GetLikedSongs nat
  | GetWatchPlaylist string nat
  | CreatePlaylist string string string
  | AddPlaylistItems string "string list" bool

datatype event = Call call | Status string | Progress nat

text \<open>
  The remote library client over a world \<open>'w\<close> that it may read and change: every call
  returns the raised exception or the result, and the next world. The track calls return
  the value of the key \<^verbatim>\<open>tracks\<close> of the response, if present.
\<close>

record 'w ytmusic =
  YTMusic :: "string \<Rightarrow> 'w \<Rightarrow> (error + unit) \<times> 'w"
  get_library_playlists :: "nat \<Rightarrow> 'w \<Rightarrow> (error + playlist list) \<times> 'w"
  get_liked_songs :: "nat \<Rightarrow> 'w \<Rightarrow> (error + track list option) \<times> 'w"
  get_watch_playlist :: "string \<Rightarrow> nat \<Rightarrow> 'w \<Rightarrow> (error + track list option) \<times> 'w"
  create_playlist :: "string \<Rightarrow> string \<Rightarrow> string \<Rightarrow> 'w \<Rightarrow> (error + string) \<times> 'w"
  add_playlist_items :: "string \<Rightarrow> string list \<Rightarrow> bool \<Rightarrow> 'w \<Rightarrow> (error + unit) \<times> 'w"

section \<open>Helper functions\<close>

text \<open>
  \<^verbatim>\<open>format_duration\<close>. The string it returns for \<^verbatim>\<open>None\<close> is a literal of the three
  characters U+00E2, U+20AC and U+201D; two of them lie beyond code point 255, so the model
  writes the literal as its eight UTF-8 bytes. \<^verbatim>\<open>divmod\<close> by 60 rounds down, as \<open>div\<close>
  and \<open>mod\<close> on \<^typ>\<open>int\<close> do.
\<close>

definition no_duration :: string where
  "no_duration =
     [char_of (195 :: nat), char_of (162 :: nat), char_of (226 :: nat), char_of (130 :: nat),
      char_of (172 :: nat), char_of (226 :: nat), char_of (128 :: nat), char_of (157 :: nat)]"

definition format_duration :: "int option \<Rightarrow> string" where
  "format_duration seconds =
     (case seconds of
        None \<Rightarrow> no_duration
      | Some sec \<Rightarrow>
          (let m0 = sec div 60; s = sec mod 60; h = m0 div 60; m = m0 mod 60
           in if h \<noteq> 0 then str_int h @ '':'' @ two_digits m @ '':'' @ two_digits s
              else str_int m @ '':'' @ two_digits s))"

text \<open>\<^verbatim>\<open>track.get("videoId") or track.get("setVideoId")\<close>\<close>

definition track_video_id :: "track \<Rightarrow> string option" where
  "track_video_id t = (if truthy (t_videoId t) then t_videoId t else t_setVideoId t)"

text \<open>
  \<^verbatim>\<open>get_artist_text\<close>. The comprehension \<^verbatim>\<open>[a.get("name") for a in track["artists"] if a.get("name")]\<close>
  goes through the entries in order and raises at the first one that is not a dictionary;
  \<open>join_comma\<close> is \<^verbatim>\<open>", ".join(names)\<close>.
\<close>

fun artist_names :: "artist list \<Rightarrow> error + string list" where
  "artist_names [] = Inr []"
| "artist_names (NotADict e # rest) = Inl e"
| "artist_names (Artist n # rest) =
     (case artist_names rest of
        Inl e \<Rightarrow> Inl e
      | Inr names \<Rightarrow> Inr (if truthy n then the n # names else names))"

fun join_comma :: "string list \<Rightarrow> string" where
  "join_comma [] = []"
| "join_comma [x] = x"
| "join_comma (x # y # ys) = x @ '', '' @ join_comma (y # ys)"

definition get_artist_text :: "track \<Rightarrow> error + string" where
  "get_artist_text t =
     (case t_artists t of
        Some (a # rest) \<Rightarrow>
          (case artist_names (a # rest) of
             Inl e \<Rightarrow> Inl e
           | Inr names \<Rightarrow> Inr (if names \<noteq> [] then join_comma names else []))
      | _ \<Rightarrow>
          Inr (case t_author t of
                 Some s \<Rightarrow> s
               | None \<Rightarrow> (case t_artistsText t of Some s \<Rightarrow> s | None \<Rightarrow> [])))"

text \<open>
  \<^verbatim>\<open>get_duration_text\<close>: the first truthy value of the keys \<^verbatim>\<open>duration\<close>, \<^verbatim>\<open>length\<close> and
  \<^verbatim>\<open>lengthText\<close>; else the formatted \<^verbatim>\<open>lengthSeconds\<close>, whose conversion is inside a
  \<^verbatim>\<open>try\<close> of its own; else the literal of \<open>no_duration\<close>.
\<close>

definition get_duration_text :: "track \<Rightarrow> string" where
  "get_duration_text t =
     (if truthy (t_duration t) then the (t_duration t)
      else if truthy (t_length t) then the (t_length t)
      else if truthy (t_lengthText t) then the (t_lengthText t)
      else (case t_lengthSeconds t of
              None \<Rightarrow> no_duration
            | Some None \<Rightarrow> no_duration
            | Some (Some n) \<Rightarrow> format_duration (Some n)))"

text \<open>\<^verbatim>\<open>response.get("tracks", [])\<close>\<close>

definition tracks_or_empty :: "track list option \<Rightarrow> track list" where
  "tracks_or_empty r = (case r of None \<Rightarrow> [] | Some ts \<Rightarrow> ts)"

text \<open>
  The destination lookup of both workers: the first playlist whose stripped, lower-cased
  title equals the stripped, lower-cased destination title ends the loop, and
  \<^verbatim>\<open>dest_id\<close> becomes its \<^verbatim>\<open>p.get("playlistId")\<close>. The test
  \<^verbatim>\<open>p.get("title", "").strip().lower() == self.dest_title.strip().lower()\<close> raises on a
  title that is not a string, and the loop is inside the \<^verbatim>\<open>try\<close> of the whole run only.
\<close>

definition title_matches :: "string \<Rightarrow> playlist \<Rightarrow> error + bool" where
  "title_matches dest_title p =
     (case p_title p of
        NoTitle \<Rightarrow> Inr (lower (strip []) = lower (strip dest_title))
      | Title s \<Rightarrow> Inr (lower (strip s) = lower (strip dest_title))
      | BadTitle e \<Rightarrow> Inl e)"

fun find_dest :: "playlist list \<Rightarrow> string \<Rightarrow> error + string option" where
  "find_dest [] dest_title = Inr None"
| "find_dest (p # ps) dest_title =
     (case title_matches dest_title p of
        Inl e \<Rightarrow> Inl e
      | Inr matches \<Rightarrow> if matches then Inr (p_playlistId p) else find_dest ps dest_title)"

section \<open>The merge planner\<close>

text \<open>
  The dictionary \<^verbatim>\<open>track_info\<close> of a track; building it raises when
  \<^verbatim>\<open>get_artist_text\<close> does.
\<close>

definition track_info_of :: "string \<Rightarrow> track \<Rightarrow> error + track_info" where
  "track_info_of source_title t =
     (case get_artist_text t of
        Inl e \<Rightarrow> Inl e
      | Inr artists_text \<Rightarrow>
          Inr \<lparr> title = (case t_title t of None \<Rightarrow> ''Unknown'' | Some s \<Rightarrow> s),
                artists = artists_text,
                duration = get_duration_text t,
                source = source_title,
                video_id = track_video_id t,
                reason = None \<rparr>)"

definition skip_with :: "string \<Rightarrow> track_info \<Rightarrow> plan_state \<Rightarrow> plan_state" where
  "skip_with r info st = st\<lparr>skipped := skipped st @ [info\<lparr>reason := Some r\<rparr>]\<rparr>"

text \<open>
  The body of \<^verbatim>\<open>for track in tracks:\<close>, the same in the playlist and the liked-songs loop:
  the exception it raises, if any, and the local variables it leaves. The counter is
  incremented before the row is built, so a raise leaves it incremented.
\<close>

definition process_track ::
  "string set \<Rightarrow> string \<Rightarrow> plan_state \<Rightarrow> track \<Rightarrow> error option \<times> plan_state" where
  "process_track dest_existing_ids source_title st t =
     (let st1 = st\<lparr>total_tracks := total_tracks st + 1\<rparr>;
          vid = track_video_id t
      in case track_info_of source_title t of
           Inl e \<Rightarrow> (Some e, st1)
         | Inr info \<Rightarrow>
             (None,
              if \<not> truthy vid then skip_with ''No video ID'' info st1
              else if the vid \<in> dest_existing_ids
              then skip_with ''Already in destination'' info st1
              else if the vid \<in> seen_ids st1 then skip_with ''Duplicate'' info st1
              else st1\<lparr>to_add := to_add st1 @ [info],
                       seen_ids := insert (the vid) (seen_ids st1)\<rparr>))"

text \<open>The loop ends at the first track whose body raises.\<close>

fun process_tracks ::
  "string set \<Rightarrow> string \<Rightarrow> plan_state \<Rightarrow> track list \<Rightarrow> error option \<times> plan_state" where
  "process_tracks dest_existing_ids source_title st [] = (None, st)"
| "process_tracks dest_existing_ids source_title st (t # ts) =
     (case process_track dest_existing_ids source_title st t of
        (Some e, st1) \<Rightarrow> (Some e, st1)
      | (None, st1) \<Rightarrow> process_tracks dest_existing_ids source_title st1 ts)"

definition init_state :: plan_state where
  "init_state = \<lparr> to_add = [], skipped = [], seen_ids = {}, total_tracks = 0 \<rparr>"

text \<open>
  The fetch of one playlist's tracks, as both the destination read and the source loop
  write it: the identifier \<^verbatim>\<open>"LM"\<close> goes to \<^verbatim>\<open>get_liked_songs(limit=100000)\<close>, any
  other to \<^verbatim>\<open>get_watch_playlist(playlistId=..., limit=10000)\<close>.
\<close>

definition fetch_tracks ::
  "'w ytmusic \<Rightarrow> string \<Rightarrow> 'w \<Rightarrow> event list \<times> (error + track list) \<times> 'w" where
  "fetch_tracks yt playlist_id w =
     (if playlist_id = ''LM''
      then (case get_liked_songs yt 100000 w of
              (Inl e, w') \<Rightarrow> ([Call (GetLikedSongs 100000)], Inl e, w')
            | (Inr r, w') \<Rightarrow> ([Call (GetLikedSongs 100000)], Inr (tracks_or_empty r), w'))
      else (case get_watch_playlist yt playlist_id 10000 w of
              (Inl e, w') \<Rightarrow> ([Call (GetWatchPlaylist playlist_id 10000)], Inl e, w')
            | (Inr r, w') \<Rightarrow>
                ([Call (GetWatchPlaylist playlist_id 10000)], Inr (tracks_or_empty r), w')))"

text \<open>\<^verbatim>\<open>{track_video_id(t) for t in dest_tracks if track_video_id(t)}\<close>\<close>

definition existing_ids :: "track list \<Rightarrow> string set" where
  "existing_ids dest_tracks =
     set (map (\<lambda>t. the (track_video_id t)) (filter (\<lambda>t. truthy (track_video_id t)) dest_tracks))"

text \<open>
  \<^verbatim>\<open>if dest_id:\<close> with its \<^verbatim>\<open>try\<close>: a failed read of the destination leaves
  \<^verbatim>\<open>dest_existing_ids\<close> the empty set.
\<close>

definition read_destination ::
  "'w ytmusic \<Rightarrow> string option \<Rightarrow> 'w \<Rightarrow> event list \<times> string set \<times> 'w" where
  "read_destination yt dest_id w =
     (if truthy dest_id
      then (case fetch_tracks yt (the dest_id) w of
              (ev, Inl e, w') \<Rightarrow>
                (Status ''Reading existing tracks in destination...'' # ev, {}, w')
            | (ev, Inr dest_tracks, w') \<Rightarrow>
                (Status ''Reading existing tracks in destination...'' # ev,
                 existing_ids dest_tracks, w'))
      else ([], {}, w))"

text \<open>
  One round of \<^verbatim>\<open>for source in self.sources:\<close>. The \<^verbatim>\<open>try\<close> spans the fetch and the
  track loop, and the handler only logs: a failed fetch leaves the plan as it was, and a
  raise in the track loop leaves the plan as the loop had it at that moment.
\<close>

definition process_source ::
  "'w ytmusic \<Rightarrow> string set \<Rightarrow> source_desc \<Rightarrow> plan_state \<Rightarrow> 'w
     \<Rightarrow> event list \<times> plan_state \<times> 'w" where
  "process_source yt dest_existing_ids src st w =
     (case fetch_tracks yt (src_playlistId src) w of
        (ev, Inl e, w') \<Rightarrow> (Status (''Processing: '' @ src_title src) # ev, st, w')
      | (ev, Inr tracks, w') \<Rightarrow>
          (Status (''Processing: '' @ src_title src) # ev,
           snd (process_tracks dest_existing_ids (src_title src) st tracks), w'))"

fun process_sources ::
  "'w ytmusic \<Rightarrow> string set \<Rightarrow> source_desc list \<Rightarrow> plan_state \<Rightarrow> 'w
     \<Rightarrow> event list \<times> plan_state \<times> 'w" where
  "process_sources yt dest_existing_ids [] st w = ([], st, w)"
| "process_sources yt dest_existing_ids (src # rest) st w =
     (case process_source yt dest_existing_ids src st w of
        (ev1, st1, w1) \<Rightarrow>
          (case process_sources yt dest_existing_ids rest st1 w1 of
             (ev2, st2, w2) \<Rightarrow> (ev1 @ ev2, st2, w2)))"

text \<open>\<^verbatim>\<open>if self.include_liked:\<close>, with a \<^verbatim>\<open>try\<close> of the same extent.\<close>

definition process_liked ::
  "'w ytmusic \<Rightarrow> string set \<Rightarrow> plan_state \<Rightarrow> 'w \<Rightarrow> event list \<times> plan_state \<times> 'w" where
  "process_liked yt dest_existing_ids st w =
     (case get_liked_songs yt 100000 w of
        (Inl e, w') \<Rightarrow>
          ([Status ''Processing liked songs...'', Call (GetLikedSongs 100000)], st, w')
      | (Inr r, w') \<Rightarrow>
          ([Status ''Processing liked songs...'', Call (GetLikedSongs 100000)],
           snd (process_tracks dest_existing_ids ''Liked Songs'' st (tracks_or_empty r)), w'))"

definition count_reason :: "string \<Rightarrow> track_info list \<Rightarrow> nat" where
  "count_reason r rows = length (filter (\<lambda>t. reason t = Some r) rows)"

definition make_result :: "string option \<Rightarrow> plan_state \<Rightarrow> preview_result" where
  "make_result dest_id st =
     \<lparr> r_to_add = to_add st,
       r_skipped = skipped st,
       r_stats =
         \<lparr> total_tracks_processed = total_tracks st,
           tracks_to_add = length (to_add st),
           tracks_skipped = length (skipped st),
           already_in_destination = count_reason ''Already in destination'' (skipped st),
           duplicates_removed = count_reason ''Duplicate'' (skipped st),
           no_video_id = count_reason ''No video ID'' (skipped st),
           destination_exists = (if truthy dest_id then ''Yes'' else ''No (will be created)'') \<rparr> \<rparr>"

definition preview_failed :: "error \<Rightarrow> preview_done" where
  "preview_failed e = PreviewDone False (''Failed to generate preview: '' @ str_error e) None"

text \<open>\<^verbatim>\<open>PreviewWorker.run\<close>: the events, the terminal signal and the world it leaves.\<close>

definition preview_run ::
  "'w ytmusic \<Rightarrow> string \<Rightarrow> source_desc list \<Rightarrow> string \<Rightarrow> bool \<Rightarrow> 'w
     \<Rightarrow> event list \<times> preview_done \<times> 'w" where
  "preview_run yt auth_path sources dest_title include_liked w0 =
     (case YTMusic yt auth_path w0 of
        (Inl e, w1) \<Rightarrow> ([Call (NewYTMusic auth_path)], preview_failed e, w1)
      | (Inr u, w1) \<Rightarrow>
          (case get_library_playlists yt 10000 w1 of
             (Inl e, w2) \<Rightarrow>
               ([Call (NewYTMusic auth_path), Status ''Checking destination playlist...'',
                 Call (GetLibraryPlaylists 10000)], preview_failed e, w2)
           | (Inr playlists, w2) \<Rightarrow>
               (case find_dest playlists dest_title of
                  Inl e \<Rightarrow>
                    ([Call (NewYTMusic auth_path), Status ''Checking destination playlist...'',
                      Call (GetLibraryPlaylists 10000)], preview_failed e, w2)
                | Inr dest_id \<Rightarrow>
                    (case read_destination yt dest_id w2 of
                       (ev_d, dest_existing_ids, w3) \<Rightarrow>
                         (case process_sources yt dest_existing_ids sources init_state w3 of
                            (ev_s, st, w4) \<Rightarrow>
                              (case (if include_liked
                                     then process_liked yt dest_existing_ids st w4
                                     else ([], st, w4)) of
                                 (ev_l, st', w5) \<Rightarrow>
                                   ([Call (NewYTMusic auth_path),
                                     Status ''Checking destination playlist...'',
                                     Call (GetLibraryPlaylists 10000)] @ ev_d @ ev_s @ ev_l,
                                    PreviewDone True ''Preview generated successfully''
                                      (Some (make_result dest_id st')),
                                    w5)))))))"

section \<open>The publisher\<close>

text \<open>\<^verbatim>\<open>self.description = description or "Auto-merged playlist from YouTube Music"\<close>\<close>

definition effective_description :: "string \<Rightarrow> string" where
  "effective_description description =
     (if description = [] then ''Auto-merged playlist from YouTube Music'' else description)"

text \<open>\<^verbatim>\<open>if not dest_id:\<close> creates the playlist and takes the returned identifier.\<close>

definition ensure_destination ::
  "'w ytmusic \<Rightarrow> string option \<Rightarrow> string \<Rightarrow> string \<Rightarrow> string \<Rightarrow> 'w
     \<Rightarrow> event list \<times> (error + string) \<times> 'w" where
  "ensure_destination yt dest_id dest_title description privacy w =
     (if \<not> truthy dest_id
      then (case create_playlist yt dest_title description privacy w of
              (Inl e, w') \<Rightarrow>
                ([Status (''Creating new playlist: '' @ dest_title),
                  Call (CreatePlaylist dest_title description privacy)], Inl e, w')
            | (Inr new_id, w') \<Rightarrow>
                ([Status (''Creating new playlist: '' @ dest_title),
                  Call (CreatePlaylist dest_title description privacy)], Inr new_id, w'))
      else ([], Inr (the dest_id), w))"

text \<open>
  \<^verbatim>\<open>for i in range(0, len(self.video_ids), batch_size):\<close> with \<^verbatim>\<open>batch_size = 50\<close>,
  from the index \<open>i\<close> on. The slice \<^verbatim>\<open>video_ids[i:i + 50]\<close> is \<open>take 50 (drop i video_ids)\<close>.
  The progress \<^verbatim>\<open>int((i + len(batch)) * 100 / len(self.video_ids))\<close> truncates a floating
  point quotient of two non-negative integers; for every list that fits in memory the
  quotient is exact enough that the truncation is the integer quotient, which the model
  takes. The result is the exception that ended the loop, if any.
\<close>

function add_batches ::
  "'w ytmusic \<Rightarrow> string \<Rightarrow> string list \<Rightarrow> nat \<Rightarrow> 'w \<Rightarrow> event list \<times> error option \<times> 'w" where
  "add_batches yt dest_id video_ids i w =
     (if i < length video_ids
      then (let batch = take 50 (drop i video_ids);
                batch_num = i div 50 + 1;
                total_batches = (length video_ids + 50 - 1) div 50;
                ev = [Status (''Adding batch '' @ str_nat batch_num @ ''/''
                                @ str_nat total_batches @ ''...''),
                      Call (AddPlaylistItems dest_id batch False)]
            in case add_playlist_items yt dest_id batch False w of
                 (Inl e, w') \<Rightarrow> (ev, Some e, w')
               | (Inr u, w') \<Rightarrow>
                   (case add_batches yt dest_id video_ids (i + 50) w' of
                      (evs, r, w'') \<Rightarrow>
                        (ev @ [Progress ((i + length batch) * 100 div length video_ids)] @ evs,
                         r, w'')))
      else ([], None, w))"
  by pat_completeness auto
termination
  by (relation "measure (\<lambda>(yt, dest_id, video_ids, i, w). length video_ids - i)") auto

declare add_batches.simps [simp del]

definition publish_failed :: "error \<Rightarrow> publish_done" where
  "publish_failed e = PublishDone False (''Publishing failed: '' @ str_error e) []"

text \<open>\<^verbatim>\<open>PublishWorker.run\<close>: the events, the terminal signal and the world it leaves.\<close>

definition publish_run ::
  "'w ytmusic \<Rightarrow> string \<Rightarrow> string list \<Rightarrow> string \<Rightarrow> string \<Rightarrow> string \<Rightarrow> 'w
     \<Rightarrow> event list \<times> publish_done \<times> 'w" where
  "publish_run yt auth_path video_ids dest_title privacy description w0 =
     (case YTMusic yt auth_path w0 of
        (Inl e, w1) \<Rightarrow> ([Call (NewYTMusic auth_path)], publish_failed e, w1)
      | (Inr u, w1) \<Rightarrow>
          (case get_library_playlists yt 10000 w1 of
             (Inl e, w2) \<Rightarrow>
               ([Call (NewYTMusic auth_path), Status ''Finding destination playlist...'',
                 Call (GetLibraryPlaylists 10000)], publish_failed e, w2)
           | (Inr playlists, w2) \<Rightarrow>
               (case find_dest playlists dest_title of
                  Inl e \<Rightarrow>
                    ([Call (NewYTMusic auth_path), Status ''Finding destination playlist...'',
                      Call (GetLibraryPlaylists 10000)], publish_failed e, w2)
                | Inr found \<Rightarrow>
                    (case ensure_destination yt found dest_title
                            (effective_description description) privacy w2 of
                       (ev_c, Inl e, w3) \<Rightarrow>
                         ([Call (NewYTMusic auth_path),
                           Status ''Finding destination playlist...'',
                           Call (GetLibraryPlaylists 10000)] @ ev_c, publish_failed e, w3)
                     | (ev_c, Inr dest_id, w3) \<Rightarrow>
                         (case (if video_ids \<noteq> [] then add_batches yt dest_id video_ids 0 w3
                                else ([], None, w3)) of
                            (ev_b, Some e, w4) \<Rightarrow>
                              ([Call (NewYTMusic auth_path),
                                Status ''Finding destination playlist...'',
                                Call (GetLibraryPlaylists 10000)] @ ev_c @ ev_b,
                               publish_failed e, w4)
                          | (ev_b, None, w4) \<Rightarrow>
                              ([Call (NewYTMusic auth_path),
                                Status ''Finding destination playlist...'',
                                Call (GetLibraryPlaylists 10000)] @ ev_c @ ev_b,
                               PublishDone True
                                 (''Successfully added '' @ str_nat (length video_ids)
                                    @ '' tracks!'')
                                 (''https://music.youtube.com/playlist?list='' @ dest_id),
                               w4))))))"

section \<open>Notions the properties are stated with\<close>

text \<open>
  A track is well formed when its row can be built: \<^verbatim>\<open>get_artist_text\<close> does not raise on
  it, that is, every entry of its artists list is a dictionary.
\<close>

definition well_formed :: "track \<Rightarrow> bool" where
  "well_formed t = (case get_artist_text t of Inl e \<Rightarrow> False | Inr a \<Rightarrow> True)"

text \<open>
  A fetched track together with the source label it is filed under, the preview row it
  gives, and the identifier derived from it. The row is the one \<open>track_info_of\<close> builds;
  for a track that is not well formed, of which the code builds no row, the artists text
  is left empty.
\<close>

definition row :: "string \<times> track \<Rightarrow> track_info" where
  "row x =
     \<lparr> title = (case t_title (snd x) of None \<Rightarrow> ''Unknown'' | Some s \<Rightarrow> s),
       artists = (case get_artist_text (snd x) of Inl e \<Rightarrow> [] | Inr a \<Rightarrow> a),
       duration = get_duration_text (snd x),
       source = fst x,
       video_id = track_video_id (snd x),
       reason = None \<rparr>"

definition vid_of :: "string \<times> track \<Rightarrow> string option" where
  "vid_of x = track_video_id (snd x)"

text \<open>A track can be added when it has an identifier that is not in the set \<open>D\<close>.\<close>

definition addable :: "string set \<Rightarrow> string \<times> track \<Rightarrow> bool" where
  "addable D x = (truthy (vid_of x) \<and> the (vid_of x) \<notin> D)"

text \<open>
  First-seen order: keep an element, drop every later element with the same key, and go on
  with what is left.
\<close>

fun first_seen :: "('a \<Rightarrow> 'k) \<Rightarrow> 'a list \<Rightarrow> 'a list" where
  "first_seen key [] = []"
| "first_seen key (x # xs) = x # first_seen key (filter (\<lambda>y. key y \<noteq> key x) xs)"

text \<open>The body of the track loop over a list of labelled tracks.\<close>

fun plan_labelled :: "string set \<Rightarrow> plan_state \<Rightarrow> (string \<times> track) list \<Rightarrow> plan_state" where
  "plan_labelled D st [] = st"
| "plan_labelled D st (x # xs) = plan_labelled D (snd (process_track D (fst x) st (snd x))) xs"

text \<open>The counter moved on by \<open>k\<close>.\<close>

definition bump :: "nat \<Rightarrow> plan_state \<Rightarrow> plan_state" where
  "bump k st = st\<lparr>total_tracks := total_tracks st + k\<rparr>"

definition unreason :: "track_info \<Rightarrow> track_info" where
  "unreason i = i\<lparr>reason := None\<rparr>"

text \<open>A skipped row carries a reason that fits its identifier and the destination set.\<close>

definition skip_ok :: "string set \<Rightarrow> track_info \<Rightarrow> bool" where
  "skip_ok D r =
     ((reason r = Some ''No video ID'' \<and> \<not> truthy (video_id r)) \<or>
      (reason r = Some ''Already in destination'' \<and> truthy (video_id r)
         \<and> the (video_id r) \<in> D) \<or>
      (reason r = Some ''Duplicate'' \<and> truthy (video_id r) \<and> the (video_id r) \<notin> D))"

text \<open>
  What a preview run obtains from the remote library, read off the same sequence of calls
  as \<open>preview_run\<close>: for every source whose fetch succeeds, in source order, its label and
  its tracks; the same for the liked songs when they are included; the resolved
  destination and its identifiers.
\<close>

fun fetched_from_sources ::
  "'w ytmusic \<Rightarrow> source_desc list \<Rightarrow> 'w \<Rightarrow> (string \<times> track list) list \<times> 'w" where
  "fetched_from_sources yt [] w = ([], w)"
| "fetched_from_sources yt (src # rest) w =
     (case fetch_tracks yt (src_playlistId src) w of
        (ev, Inl e, w') \<Rightarrow> fetched_from_sources yt rest w'
      | (ev, Inr tracks, w') \<Rightarrow>
          (case fetched_from_sources yt rest w' of
             (fs, w'') \<Rightarrow> ((src_title src, tracks) # fs, w'')))"

definition fetched_liked :: "'w ytmusic \<Rightarrow> bool \<Rightarrow> 'w \<Rightarrow> (string \<times> track list) list" where
  "fetched_liked yt include_liked w =
     (if include_liked
      then (case get_liked_songs yt 100000 w of
              (Inl e, w') \<Rightarrow> []
            | (Inr r, w') \<Rightarrow> [(''Liked Songs'', tracks_or_empty r)])
      else [])"

text \<open>
  Of a list of fetches: all the tracks with their labels; the tracks that the track loop
  classifies, which are, of every fetch, the tracks before the first one that is not well
  formed; and the number of fetches that hold a track that is not well formed.
\<close>

definition labelled :: "(string \<times> track list) list \<Rightarrow> (string \<times> track) list" where
  "labelled fs = concat (map (\<lambda>f. map (Pair (fst f)) (snd f)) fs)"

definition classified :: "(string \<times> track list) list \<Rightarrow> (string \<times> track) list" where
  "classified fs = concat (map (\<lambda>f. map (Pair (fst f)) (takeWhile well_formed (snd f))) fs)"

definition loops_raised :: "(string \<times> track list) list \<Rightarrow> nat" where
  "loops_raised fs = length (filter (\<lambda>f. \<not> list_all well_formed (snd f)) fs)"

record preview_inputs =
  in_dest_id :: "string option"
  in_existing_ids :: "string set"
  in_source_fetches :: "(string \<times> track list) list"
  in_liked_fetches :: "(string \<times> track list) list"

definition preview_inputs ::
  "'w ytmusic \<Rightarrow> string \<Rightarrow> source_desc list \<Rightarrow> string \<Rightarrow> bool \<Rightarrow> 'w
     \<Rightarrow> preview_inputs option" where
  "preview_inputs yt auth_path sources dest_title include_liked w0 =
     (case YTMusic yt auth_path w0 of
        (Inl e, w1) \<Rightarrow> None
      | (Inr u, w1) \<Rightarrow>
          (case get_library_playlists yt 10000 w1 of
             (Inl e, w2) \<Rightarrow> None
           | (Inr playlists, w2) \<Rightarrow>
               (case find_dest playlists dest_title of
                  Inl e \<Rightarrow> None
                | Inr dest_id \<Rightarrow>
                    (case read_destination yt dest_id w2 of
                       (ev_d, dest_existing_ids, w3) \<Rightarrow>
                         (case fetched_from_sources yt sources w3 of
                            (fs, w4) \<Rightarrow>
                              Some \<lparr> in_dest_id = dest_id,
                                     in_existing_ids = dest_existing_ids,
                                     in_source_fetches = fs,
                                     in_liked_fetches = fetched_liked yt include_liked w4 \<rparr>)))))"

text \<open>
  The tracks of the playlist sources and of the liked songs that the run classifies, all
  the tracks it fetches, and the plan: the track loop over the classified tracks, with the
  counter moved on by one for every fetch whose loop raised.
\<close>

definition in_sources :: "preview_inputs \<Rightarrow> (string \<times> track) list" where
  "in_sources inp = classified (in_source_fetches inp)"

definition in_liked :: "preview_inputs \<Rightarrow> (string \<times> track) list" where
  "in_liked inp = classified (in_liked_fetches inp)"

definition fetched :: "preview_inputs \<Rightarrow> (string \<times> track) list" where
  "fetched inp = labelled (in_source_fetches inp @ in_liked_fetches inp)"

definition planned :: "preview_inputs \<Rightarrow> plan_state" where
  "planned inp =
     bump (loops_raised (in_source_fetches inp @ in_liked_fetches inp))
       (plan_labelled (in_existing_ids inp) init_state (in_sources inp @ in_liked inp))"

text \<open>
  Batches as the publisher's contract words them: the first fifty identifiers, then the
  batches of the rest.
\<close>

function batches :: "'a list \<Rightarrow> 'a list list" where
  "batches xs = (if xs = [] then [] else take 50 xs # batches (drop 50 xs))"
  by pat_completeness auto
termination
  by (relation "measure length") auto

declare batches.simps [simp del]

text \<open>The progress value after the batch with index \<open>k\<close>, of \<open>n\<close> identifiers.\<close>

definition progress_after :: "nat \<Rightarrow> nat \<Rightarrow> nat" where
  "progress_after n k = min n (50 * (k + 1)) * 100 div n"

text \<open>The remote calls, the add-items calls and the progress values of a trace.\<close>

fun call_of :: "event \<Rightarrow> call list" where
  "call_of (Call c) = [c]"
| "call_of (Status s) = []"
| "call_of (Progress p) = []"

definition calls_of :: "event list \<Rightarrow> call list" where
  "calls_of ev = concat (map call_of ev)"

fun is_add :: "call \<Rightarrow> bool" where
  "is_add (AddPlaylistItems d b dup) = True"
| "is_add (NewYTMusic a) = False"
| "is_add (GetLibraryPlaylists l) = False"
| "is_add (GetLikedSongs l) = False"
| "is_add (GetWatchPlaylist p l) = False"
| "is_add (CreatePlaylist t d p) = False"

definition add_calls :: "event list \<Rightarrow> call list" where
  "add_calls ev = filter is_add (calls_of ev)"

fun progress_of_event :: "event \<Rightarrow> nat list" where
  "progress_of_event (Progress p) = [p]"
| "progress_of_event (Call c) = []"
| "progress_of_event (Status s) = []"

definition progress_values :: "event list \<Rightarrow> nat list" where
  "progress_values ev = concat (map progress_of_event ev)"

text \<open>
  Performing a recorded call on the remote library: the exception it raises, if any, and
  the world it leaves. \<open>perform_all\<close> performs a list of calls in order.
\<close>

definition raised :: "error + 'a \<Rightarrow> error option" where
  "raised r = (case r of Inl e \<Rightarrow> Some e | Inr x \<Rightarrow> None)"

fun perform :: "'w ytmusic \<Rightarrow> call \<Rightarrow> 'w \<Rightarrow> error option \<times> 'w" where
  "perform yt (NewYTMusic a) w = (case YTMusic yt a w of (r, w') \<Rightarrow> (raised r, w'))"
| "perform yt (GetLibraryPlaylists l) w =
     (case get_library_playlists yt l w of (r, w') \<Rightarrow> (raised r, w'))"
| "perform yt (GetLikedSongs l) w = (case get_liked_songs yt l w of (r, w') \<Rightarrow> (raised r, w'))"
| "perform yt (GetWatchPlaylist p l) w =
     (case get_watch_playlist yt p l w of (r, w') \<Rightarrow> (raised r, w'))"
| "perform yt (CreatePlaylist t d p) w =
     (case create_playlist yt t d p w of (r, w') \<Rightarrow> (raised r, w'))"
| "perform yt (AddPlaylistItems d b dup) w =
     (case add_playlist_items yt d b dup w of (r, w') \<Rightarrow> (raised r, w'))"

fun perform_all :: "'w ytmusic \<Rightarrow> call list \<Rightarrow> 'w \<Rightarrow> error option list \<times> 'w" where
  "perform_all yt [] w = ([], w)"
| "perform_all yt (c # cs) w =
     (case perform yt c w of
        (r, w') \<Rightarrow> (case perform_all yt cs w' of (rs, w'') \<Rightarrow> (r # rs, w'')))"

section \<open>A scripted remote library for concrete runs\<close>

text \<open>
  A small stand-in for the remote library: it counts the calls made, raises on the calls
  whose index is listed in \<open>failing\<close>, answers from a fixed library, and keeps every
  successful add-items call.
\<close>

record demo_world =
  calls_made :: nat
  stored :: "(string \<times> string list) list"

definition demo_reply :: "nat list \<Rightarrow> demo_world \<Rightarrow> 'a \<Rightarrow> (error + 'a) \<times> demo_world" where
  "demo_reply failing w r =
     (if calls_made w \<in> set failing then Inl (Error ''HTTP 503'') else Inr r,
      w\<lparr>calls_made := calls_made w + 1\<rparr>)"

definition demo_add ::
  "nat list \<Rightarrow> string \<Rightarrow> string list \<Rightarrow> demo_world \<Rightarrow> (error + unit) \<times> demo_world" where
  "demo_add failing playlist_id ids w =
     (if calls_made w \<in> set failing
      then (Inl (Error ''HTTP 503''), w\<lparr>calls_made := calls_made w + 1\<rparr>)
      else (Inr (), w\<lparr>calls_made := calls_made w + 1,
                       stored := stored w @ [(playlist_id, ids)]\<rparr>))"

definition demo_yt ::
  "nat list \<Rightarrow> playlist list \<Rightarrow> (string \<Rightarrow> track list option) \<Rightarrow> track list option
     \<Rightarrow> demo_world ytmusic" where
  "demo_yt failing library playlist_tracks liked =
     \<lparr> YTMusic = (\<lambda>auth_path w. demo_reply failing w ()),
       get_library_playlists = (\<lambda>limit w. demo_reply failing w library),
       get_liked_songs = (\<lambda>limit w. demo_reply failing w liked),
       get_watch_playlist =
         (\<lambda>playlist_id limit w. demo_reply failing w (playlist_tracks playlist_id)),
       create_playlist = (\<lambda>t d p w. demo_reply failing w (''PL-'' @ t)),
       add_playlist_items = (\<lambda>playlist_id ids dup w. demo_add failing playlist_id ids w) \<rparr>"

definition demo_start :: demo_world where
  "demo_start = \<lparr> calls_made = 0, stored = [] \<rparr>"

definition demo_track :: "string \<Rightarrow> string \<Rightarrow> track" where
  "demo_track v name =
     \<lparr> t_videoId = (if v = [] then None else Some v), t_setVideoId = None,
       t_title = Some name, t_artists = Some [Artist (Some ''Artist'')], t_author = None,
       t_artistsText = None, t_duration = Some ''3:45'', t_length = None,
       t_lengthText = None, t_lengthSeconds = None \<rparr>"

text \<open>
  The exception of an attribute access on \<^verbatim>\<open>None\<close>, and a track whose artists list holds
  \<^verbatim>\<open>None\<close> in place of a dictionary.
\<close>

definition none_has_no :: "string \<Rightarrow> error" where
  "none_has_no attr =
     Error ([CHR 0x27] @ ''NoneType'' @ [CHR 0x27] @ '' object has no attribute ''
              @ [CHR 0x27] @ attr @ [CHR 0x27])"

definition demo_bad_track :: "string \<Rightarrow> string \<Rightarrow> track" where
  "demo_bad_track v name =
     (demo_track v name)\<lparr>t_artists := Some [NotADict (none_has_no ''get'')]\<rparr>"

definition demo_library :: "playlist list" where
  "demo_library =
     [\<lparr> p_title = Title ''Road Trip'', p_playlistId = Some ''PLX'' \<rparr>,
      \<lparr> p_title = Title '' My Mix '', p_playlistId = Some ''PLD'' \<rparr>,
      \<lparr> p_title = Title ''my mix'', p_playlistId = Some ''PLD2'' \<rparr>]"

definition demo_playlist_tracks :: "string \<Rightarrow> track list option" where
  "demo_playlist_tracks playlist_id =
     (if playlist_id = ''PLD'' then Some [demo_track ''v1'' ''One'']
      else if playlist_id = ''PLX''
      then Some [demo_track ''v1'' ''One'', demo_track ''v2'' ''Two'',
                 demo_track ''v2'' ''Two again'', demo_track [] ''Nameless'']
      else if playlist_id = ''PLY'' then Some [demo_track ''v4'' ''Four'']
      else if playlist_id = ''PLZ''
      then Some [demo_track ''v5'' ''Five'', demo_bad_track ''v6'' ''Six'',
                 demo_track ''v7'' ''Seven'']
      else None)"

definition demo_liked :: "track list option" where
  "demo_liked = Some [demo_track ''v2'' ''Two'', demo_track ''v3'' ''Three'']"

definition demo_sources :: "source_desc list" where
  "demo_sources =
     [\<lparr> src_title = ''Road Trip'', src_playlistId = ''PLX'' \<rparr>,
      \<lparr> src_title = ''Yoga'', src_playlistId = ''PLY'' \<rparr>]"

definition demo :: "nat list \<Rightarrow> demo_world ytmusic" where
  "demo failing = demo_yt failing demo_library demo_playlist_tracks demo_liked"

definition demo_inputs :: preview_inputs where
  "demo_inputs =
     \<lparr> in_dest_id = Some ''PLD'',
       in_existing_ids = {''v1''},
       in_source_fetches =
         [(''Road Trip'',
           [demo_track ''v1'' ''One'', demo_track ''v2'' ''Two'', demo_track ''v2'' ''Two again'',
            demo_track [] ''Nameless'']),
          (''Yoga'', [demo_track ''v4'' ''Four''])],
       in_liked_fetches =
         [(''Liked Songs'', [demo_track ''v2'' ''Two'', demo_track ''v3'' ''Three''])] \<rparr>"

definition demo_row :: "string \<Rightarrow> string \<Rightarrow> string \<Rightarrow> string option \<Rightarrow> track_info" where
  "demo_row v name src r =
     \<lparr> title = name, artists = ''Artist'', duration = ''3:45'', source = src,
       video_id = (if v = [] then None else Some v), reason = r \<rparr>"

definition demo_result :: preview_result where
  "demo_result =
     \<lparr> r_to_add =
         [demo_row ''v2'' ''Two'' ''Road Trip'' None, demo_row ''v4'' ''Four'' ''Yoga'' None,
          demo_row ''v3'' ''Three'' ''Liked Songs'' None],
       r_skipped =
         [demo_row ''v1'' ''One'' ''Road Trip'' (Some ''Already in destination''),
          demo_row ''v2'' ''Two again'' ''Road Trip'' (Some ''Duplicate''),
          demo_row [] ''Nameless'' ''Road Trip'' (Some ''No video ID''),
          demo_row ''v2'' ''Two'' ''Liked Songs'' (Some ''Duplicate'')],
       r_stats =
         \<lparr> total_tracks_processed = 7, tracks_to_add = 3, tracks_skipped = 4,
           already_in_destination = 1, duplicates_removed = 2, no_video_id = 1,
           destination_exists = ''Yes'' \<rparr> \<rparr>"

text \<open>
  The batches of the publisher by index: the number of batches of \<open>n\<close> identifiers, the
  batch with index \<open>j\<close>, and the events of one round of the batch loop.
\<close>

definition n_batches :: "nat \<Rightarrow> nat" where
  "n_batches n = (n + 49) div 50"

definition batch_at :: "'a list \<Rightarrow> nat \<Rightarrow> 'a list" where
  "batch_at xs j = take 50 (drop (50 * j) xs)"

definition batch_events :: "string \<Rightarrow> string list \<Rightarrow> nat \<Rightarrow> event list" where
  "batch_events dest_id video_ids j =
     [Status (''Adding batch '' @ str_nat (j + 1) @ ''/''
                @ str_nat (n_batches (length video_ids)) @ ''...''),
      Call (AddPlaylistItems dest_id (batch_at video_ids j) False)]"

definition batch_round :: "string \<Rightarrow> string list \<Rightarrow> nat \<Rightarrow> event list" where
  "batch_round dest_id video_ids j =
     batch_events dest_id video_ids j @ [Progress (progress_after (length video_ids) j)]"

text \<open>The events of a publish run up to the library listing.\<close>

definition listing_events :: "string \<Rightarrow> event list" where
  "listing_events auth_path =
     [Call (NewYTMusic auth_path), Status ''Finding destination playlist...'',
      Call (GetLibraryPlaylists 10000)]"

text \<open>120 identifiers, and a library whose first matching entry has no identifier.\<close>

definition demo_ids :: "string list" where
  "demo_ids = map (\<lambda>i. CHR ''v'' # str_nat i) [0..<120]"



text \<open>
  A source whose second track is not well formed, and the inputs and the result of the
  preview of that source alone into a destination that does not exist.
\<close>

definition demo_broken_sources :: "source_desc list" where
  "demo_broken_sources = [\<lparr> src_title = ''Broken'', src_playlistId = ''PLZ'' \<rparr>]"

definition demo_broken_inputs :: preview_inputs where
  "demo_broken_inputs =
     \<lparr> in_dest_id = None,
       in_existing_ids = {},
       in_source_fetches =
         [(''Broken'',
           [demo_track ''v5'' ''Five'', demo_bad_track ''v6'' ''Six'',
            demo_track ''v7'' ''Seven''])],
       in_liked_fetches = [] \<rparr>"

definition demo_broken_result :: preview_result where
  "demo_broken_result =
     \<lparr> r_to_add = [demo_row ''v5'' ''Five'' ''Broken'' None],
       r_skipped = [],
       r_stats =
         \<lparr> total_tracks_processed = 2, tracks_to_add = 1, tracks_skipped = 0,
           already_in_destination = 0, duplicates_removed = 0, no_video_id = 0,
           destination_exists = ''No (will be created)'' \<rparr> \<rparr>"

text \<open>The scripted library with a listing whose first entry has the title \<^verbatim>\<open>None\<close>.\<close>

definition demo_library_bad_title :: "playlist list" where
  "demo_library_bad_title =
     \<lparr> p_title = BadTitle (none_has_no ''strip''), p_playlistId = Some ''PLQ'' \<rparr>
       # demo_library"

definition demo_bad_title :: "demo_world ytmusic" where
  "demo_bad_title = demo_yt [] demo_library_bad_title demo_playlist_tracks demo_liked"

section \<open>The track loop\<close>

lemma track_info_of_row: "well_formed t \<Longrightarrow> track_info_of l t = Inr (row (l, t))"
  by (cases "get_artist_text t") (simp_all add: well_formed_def track_info_of_def row_def)

lemma track_info_of_raise: "\<not> well_formed t \<Longrightarrow> \<exists>e. track_info_of l t = Inl e"
  by (cases "get_artist_text t") (simp_all add: well_formed_def track_info_of_def)

lemma process_track_cases:
  "well_formed t \<Longrightarrow>
   process_track D l st t =
     (None,
      if \<not> truthy (track_video_id t)
      then st\<lparr>total_tracks := total_tracks st + 1,
              skipped := skipped st @ [(row (l, t))\<lparr>reason := Some ''No video ID''\<rparr>]\<rparr>
      else if the (track_video_id t) \<in> D
      then st\<lparr>total_tracks := total_tracks st + 1,
              skipped := skipped st
                 @ [(row (l, t))\<lparr>reason := Some ''Already in destination''\<rparr>]\<rparr>
      else if the (track_video_id t) \<in> seen_ids st
      then st\<lparr>total_tracks := total_tracks st + 1,
              skipped := skipped st @ [(row (l, t))\<lparr>reason := Some ''Duplicate''\<rparr>]\<rparr>
      else st\<lparr>total_tracks := total_tracks st + 1,
              to_add := to_add st @ [row (l, t)],
              seen_ids := insert (the (track_video_id t)) (seen_ids st)\<rparr>)"
  by (simp add: process_track_def track_info_of_row skip_with_def Let_def)

lemma process_track_raise:
  "\<not> well_formed t \<Longrightarrow> \<exists>e. process_track D l st t = (Some e, bump 1 st)"
  using track_info_of_raise [of t l]
  by (auto simp: process_track_def bump_def Let_def)

lemma bump_fields:
  "to_add (bump k st) = to_add st" "skipped (bump k st) = skipped st"
  "seen_ids (bump k st) = seen_ids st" "total_tracks (bump k st) = total_tracks st + k"
  by (simp_all add: bump_def)

lemma bump_bump: "bump j (bump k st) = bump (k + j) st"
  by (simp add: bump_def add.assoc)

lemma bump_zero: "bump 0 st = st"
  by (simp add: bump_def)

lemma process_track_bump:
  "process_track D l (bump k st) t = (fst (process_track D l st t), bump k (snd (process_track D l st t)))"
proof (cases "track_info_of l t")
  case (Inl e)
  then show ?thesis
    by (simp add: process_track_def bump_def Let_def add.commute add.left_commute)
next
  case (Inr info)
  then show ?thesis
    by (simp add: process_track_def bump_def skip_with_def Let_def add.commute add.left_commute)
qed

lemma plan_labelled_bump: "plan_labelled D (bump k st) xs = bump k (plan_labelled D st xs)"
  by (induction xs arbitrary: st) (simp_all add: process_track_bump)

lemma plan_labelled_append:
  "plan_labelled D st (xs @ ys) = plan_labelled D (plan_labelled D st xs) ys"
  by (induction xs arbitrary: st) simp_all

text \<open>
  The track loop of one fetch classifies the tracks before the first one that is not well
  formed; when there is such a track, the counter has moved on by one more.
\<close>

lemma process_tracks_labelled:
  "snd (process_tracks D l st ts) =
     bump (if list_all well_formed ts then 0 else 1)
       (plan_labelled D st (map (Pair l) (takeWhile well_formed ts)))"
proof (induction ts arbitrary: st)
  case Nil
  then show ?case by (simp add: bump_zero)
next
  case (Cons t ts)
  show ?case
  proof (cases "well_formed t")
    case True
    then show ?thesis
      using Cons.IH [of "snd (process_track D l st t)"]
      by (simp add: process_track_cases)
  next
    case False
    from process_track_raise [OF this, of D l st] obtain e where
      "process_track D l st t = (Some e, bump 1 st)"
      by blast
    with False show ?thesis by simp
  qed
qed

lemma total_process_track: "total_tracks (snd (process_track D l st t)) = total_tracks st + 1"
  by (cases "track_info_of l t") (simp_all add: process_track_def skip_with_def Let_def)

lemma total_plan_labelled: "total_tracks (plan_labelled D st xs) = total_tracks st + length xs"
  by (induction xs arbitrary: st) (simp_all add: total_process_track)

lemma rows_process_track:
  "well_formed t \<Longrightarrow>
   mset (map unreason (to_add (snd (process_track D l st t)) @ skipped (snd (process_track D l st t))))
     = mset (map unreason (to_add st @ skipped st)) + {#row (l, t)#}"
  by (simp add: process_track_cases unreason_def row_def)

lemma rows_plan_labelled:
  "list_all (\<lambda>x. well_formed (snd x)) xs \<Longrightarrow>
   mset (map unreason (to_add (plan_labelled D st xs) @ skipped (plan_labelled D st xs)))
     = mset (map unreason (to_add st @ skipped st)) + mset (map row xs)"
proof (induction xs arbitrary: st)
  case Nil
  then show ?case by simp
next
  case (Cons x xs)
  obtain l t where x: "x = (l, t)" by (cases x)
  from Cons.prems x have wf: "well_formed t" and rest: "list_all (\<lambda>x. well_formed (snd x)) xs"
    by simp_all
  show ?case
    using Cons.IH [OF rest, of "snd (process_track D l st t)"] rows_process_track [OF wf, of D l st]
    by (simp add: x)
qed

lemma vid_row: "video_id (row x) = vid_of x"
  by (simp add: row_def vid_of_def)

lemma to_add_process_track:
  "well_formed t \<Longrightarrow>
   to_add (snd (process_track D l st t)) =
     to_add st @ (if addable (D \<union> seen_ids st) (l, t) then [row (l, t)] else [])"
  by (simp add: process_track_cases addable_def vid_of_def)

lemma seen_process_track:
  "well_formed t \<Longrightarrow>
   seen_ids (snd (process_track D l st t)) =
     (if addable (D \<union> seen_ids st) (l, t) then insert (the (vid_of (l, t))) (seen_ids st)
      else seen_ids st)"
  by (simp add: process_track_cases addable_def vid_of_def)

lemma skipped_process_track:
  "list_all (skip_ok D) (skipped st)
     \<Longrightarrow> list_all (skip_ok D) (skipped (snd (process_track D l st t)))"
proof (cases "well_formed t")
  case True
  then show "list_all (skip_ok D) (skipped st)
     \<Longrightarrow> list_all (skip_ok D) (skipped (snd (process_track D l st t)))"
    by (simp add: process_track_cases skip_ok_def row_def)
next
  case False
  from process_track_raise [OF this, of D l st]
  show "list_all (skip_ok D) (skipped st)
     \<Longrightarrow> list_all (skip_ok D) (skipped (snd (process_track D l st t)))"
    by (auto simp: bump_fields)
qed

lemma skipped_plan_labelled:
  "list_all (skip_ok D) (skipped st)
     \<Longrightarrow> list_all (skip_ok D) (skipped (plan_labelled D st xs))"
  by (induction xs arbitrary: st) (simp_all add: skipped_process_track)

lemma to_add_reason_process_track:
  "list_all (\<lambda>r. reason r = None) (to_add st)
     \<Longrightarrow> list_all (\<lambda>r. reason r = None) (to_add (snd (process_track D l st t)))"
proof (cases "well_formed t")
  case True
  then show "list_all (\<lambda>r. reason r = None) (to_add st)
     \<Longrightarrow> list_all (\<lambda>r. reason r = None) (to_add (snd (process_track D l st t)))"
    by (simp add: process_track_cases row_def)
next
  case False
  from process_track_raise [OF this, of D l st]
  show "list_all (\<lambda>r. reason r = None) (to_add st)
     \<Longrightarrow> list_all (\<lambda>r. reason r = None) (to_add (snd (process_track D l st t)))"
    by (auto simp: bump_fields)
qed

lemma to_add_reason_plan_labelled:
  "list_all (\<lambda>r. reason r = None) (to_add st)
     \<Longrightarrow> list_all (\<lambda>r. reason r = None) (to_add (plan_labelled D st xs))"
  by (induction xs arbitrary: st) (simp_all add: to_add_reason_process_track)

section \<open>First-seen order\<close>

lemma filter_key_shorter: "length (filter (\<lambda>y. key y \<noteq> k) xs) < Suc (length xs)"
  by (simp add: le_imp_less_Suc)

lemma first_seen_subset: "set (first_seen key xs) \<subseteq> set xs"
proof (induction "length xs" arbitrary: xs rule: less_induct)
  case less
  show ?case
  proof (cases xs)
    case Nil
    then show ?thesis by simp
  next
    case (Cons x xs')
    have "length (filter (\<lambda>y. key y \<noteq> key x) xs') < length xs"
      using Cons filter_key_shorter [of key "key x" xs'] by simp
    from less.hyps [OF this] show ?thesis using Cons by auto
  qed
qed

lemma first_seen_distinct: "distinct (map key (first_seen key xs))"
proof (induction "length xs" arbitrary: xs rule: less_induct)
  case less
  show ?case
  proof (cases xs)
    case Nil
    then show ?thesis by simp
  next
    case (Cons x xs')
    have len: "length (filter (\<lambda>y. key y \<noteq> key x) xs') < length xs"
      using Cons filter_key_shorter [of key "key x" xs'] by simp
    have "key x \<notin> key ` set (first_seen key (filter (\<lambda>y. key y \<noteq> key x) xs'))"
      using first_seen_subset [of key "filter (\<lambda>y. key y \<noteq> key x) xs'"] by auto
    with less.hyps [OF len] show ?thesis using Cons by simp
  qed
qed


lemma to_add_plan_labelled:
  "list_all (\<lambda>x. well_formed (snd x)) xs \<Longrightarrow>
   to_add (plan_labelled D st xs) =
     to_add st @ map row (first_seen vid_of (filter (addable (D \<union> seen_ids st)) xs))"
proof (induction xs arbitrary: st)
  case Nil
  then show ?case by simp
next
  case (Cons x xs)
  obtain l t where x: "x = (l, t)" by (cases x)
  from Cons.prems x have wf: "well_formed t" and rest: "list_all (\<lambda>x. well_formed (snd x)) xs"
    by simp_all
  note IH = Cons.IH [OF rest, of "snd (process_track D l st t)"]
  show ?case
  proof (cases "addable (D \<union> seen_ids st) x")
    case True
    have "filter (addable (D \<union> insert (the (vid_of x)) (seen_ids st))) xs
            = filter (\<lambda>y. vid_of y \<noteq> vid_of x) (filter (addable (D \<union> seen_ids st)) xs)"
      unfolding filter_filter using True
      by (intro filter_cong [OF refl]) (auto simp: addable_def truthy_def split: option.splits)
    then show ?thesis
      using True x IH
      by (simp add: to_add_process_track [OF wf] seen_process_track [OF wf])
  next
    case False
    then show ?thesis
      using x IH
      by (simp add: to_add_process_track [OF wf] seen_process_track [OF wf])
  qed
qed

section \<open>The preview run\<close>

lemma classified_simps:
  "classified [] = []"
  "classified (f # fs) = map (Pair (fst f)) (takeWhile well_formed (snd f)) @ classified fs"
  "classified (fs @ gs) = classified fs @ classified gs"
  by (simp_all add: classified_def)

lemma labelled_simps:
  "labelled [] = []"
  "labelled (f # fs) = map (Pair (fst f)) (snd f) @ labelled fs"
  "labelled (fs @ gs) = labelled fs @ labelled gs"
  by (simp_all add: labelled_def)

lemma loops_raised_simps:
  "loops_raised [] = 0"
  "loops_raised (f # fs) = (if list_all well_formed (snd f) then 0 else 1) + loops_raised fs"
  "loops_raised (fs @ gs) = loops_raised fs + loops_raised gs"
  by (simp_all add: loops_raised_def)

lemma classified_well_formed: "list_all (\<lambda>x. well_formed (snd x)) (classified fs)"
proof (induction fs)
  case Nil
  then show ?case by (simp add: classified_simps)
next
  case (Cons f fs)
  have "list_all (\<lambda>x. well_formed (snd x)) (map (Pair (fst f)) (takeWhile well_formed (snd f)))"
    by (auto simp: list_all_iff dest: set_takeWhileD)
  with Cons show ?case by (simp add: classified_simps)
qed

lemma classified_subseq: "subseq (classified fs) (labelled fs)"
proof (induction fs)
  case Nil
  then show ?case by (simp add: classified_simps labelled_simps)
next
  case (Cons f fs)
  have "subseq (takeWhile well_formed (snd f))
          (takeWhile well_formed (snd f) @ dropWhile well_formed (snd f))"
    by (rule list_emb_prefix) simp
  then have "subseq (takeWhile well_formed (snd f)) (snd f)"
    by simp
  then have "subseq (map (Pair (fst f)) (takeWhile well_formed (snd f))) (map (Pair (fst f)) (snd f))"
    by (rule subseq_map)
  with Cons show ?case
    by (simp add: classified_simps labelled_simps list_emb_append_mono)
qed

lemma classified_all_well_formed:
  "list_all (\<lambda>x. well_formed (snd x)) (labelled fs)
     \<Longrightarrow> classified fs = labelled fs \<and> loops_raised fs = 0"
proof (induction fs)
  case Nil
  then show ?case by (simp add: classified_simps labelled_simps loops_raised_simps)
next
  case (Cons f fs)
  from Cons.prems have rest: "list_all (\<lambda>x. well_formed (snd x)) (labelled fs)"
    by (simp add: labelled_simps)
  from Cons.prems have "list_all (\<lambda>x. well_formed (snd x)) (map (Pair (fst f)) (snd f))"
    by (simp add: labelled_simps)
  then have wf: "list_all well_formed (snd f)"
    by (simp add: list_all_iff)
  from wf have tw: "takeWhile well_formed (snd f) = snd f"
    by (simp add: list_all_iff)
  show ?case
    unfolding classified_simps labelled_simps loops_raised_simps tw
    using Cons.IH [OF rest] wf by simp
qed

lemma process_sources_plan:
  "snd (process_sources yt D sources st w) =
     (bump (loops_raised (fst (fetched_from_sources yt sources w)))
        (plan_labelled D st (classified (fst (fetched_from_sources yt sources w)))),
      snd (fetched_from_sources yt sources w))"
proof (induction sources arbitrary: st w)
  case Nil
  then show ?case by (simp add: classified_simps loops_raised_simps bump_zero)
next
  case (Cons src rest)
  obtain ev r w' where f: "fetch_tracks yt (src_playlistId src) w = (ev, r, w')"
    by (cases "fetch_tracks yt (src_playlistId src) w") auto
  obtain fs w'' where g: "fetched_from_sources yt rest w' = (fs, w'')"
    by (cases "fetched_from_sources yt rest w'") auto
  show ?case
  proof (cases r)
    case (Inl e)
    obtain ev2 st2 w2 where p: "process_sources yt D rest st w' = (ev2, st2, w2)"
      by (cases "process_sources yt D rest st w'") auto
    have "st2 = bump (loops_raised fs) (plan_labelled D st (classified fs))" "w2 = w''"
      using Cons.IH [of st w'] p g by simp_all
    with f g p Inl show ?thesis
      by (simp add: process_source_def)
  next
    case (Inr tracks)
    let ?st1 = "snd (process_tracks D (src_title src) st tracks)"
    obtain ev2 st2 w2 where p: "process_sources yt D rest ?st1 w' = (ev2, st2, w2)"
      by (cases "process_sources yt D rest ?st1 w'") auto
    have "st2 = bump (loops_raised fs) (plan_labelled D ?st1 (classified fs))" "w2 = w''"
      using Cons.IH [of ?st1 w'] p g by simp_all
    with f g p Inr show ?thesis
      by (simp add: process_source_def process_tracks_labelled plan_labelled_append
          plan_labelled_bump bump_bump classified_simps loops_raised_simps add.commute)
  qed
qed

lemma process_liked_plan:
  "fst (snd (process_liked yt D st w)) =
     bump (loops_raised (fetched_liked yt True w))
       (plan_labelled D st (classified (fetched_liked yt True w)))"
proof -
  obtain r w' where l: "get_liked_songs yt 100000 w = (r, w')"
    by (cases "get_liked_songs yt 100000 w") auto
  show ?thesis
  proof (cases r)
    case (Inl e)
    with l show ?thesis
      by (simp add: process_liked_def fetched_liked_def classified_simps loops_raised_simps
          bump_zero)
  next
    case (Inr ts)
    with l show ?thesis
      by (simp add: process_liked_def fetched_liked_def process_tracks_labelled
          classified_simps loops_raised_simps)
  qed
qed

lemma preview_run_result:
  "fst (snd (preview_run yt auth_path sources dest_title include_liked w0)) =
     (case YTMusic yt auth_path w0 of
        (Inl e, w1) \<Rightarrow> preview_failed e
      | (Inr u, w1) \<Rightarrow>
          (case get_library_playlists yt 10000 w1 of
             (Inl e, w2) \<Rightarrow> preview_failed e
           | (Inr playlists, w2) \<Rightarrow>
               (case find_dest playlists dest_title of
                  Inl e \<Rightarrow> preview_failed e
                | Inr dest_id \<Rightarrow>
                    PreviewDone True ''Preview generated successfully''
                      (Some (make_result dest_id
                         (planned (the (preview_inputs yt auth_path sources dest_title
                                          include_liked w0))))))))"
proof -
  obtain r1 w1 where a: "YTMusic yt auth_path w0 = (r1, w1)"
    by (cases "YTMusic yt auth_path w0") auto
  obtain r2 w2 where b: "get_library_playlists yt 10000 w1 = (r2, w2)"
    by (cases "get_library_playlists yt 10000 w1") auto
  show ?thesis
  proof (cases r1)
    case (Inl e)
    with a show ?thesis by (simp add: preview_run_def)
  next
    case r1: (Inr u)
    show ?thesis
    proof (cases r2)
      case (Inl e)
      with a b r1 show ?thesis by (simp add: preview_run_def)
    next
      case (Inr playlists)
      show ?thesis
      proof (cases "find_dest playlists dest_title")
        case (Inl e)
        with a b r1 Inr show ?thesis by (simp add: preview_run_def)
      next
        case fd: (Inr dest_id)
        obtain ev_d D w3 where c: "read_destination yt dest_id w2 = (ev_d, D, w3)"
          by (cases "read_destination yt dest_id w2") auto
        obtain ev_s st w4 where d: "process_sources yt D sources init_state w3 = (ev_s, st, w4)"
          by (cases "process_sources yt D sources init_state w3") auto
        obtain fs w4' where g: "fetched_from_sources yt sources w3 = (fs, w4')"
          by (cases "fetched_from_sources yt sources w3") auto
        have d': "st = bump (loops_raised fs) (plan_labelled D init_state (classified fs))"
          "w4 = w4'"
          using process_sources_plan [of yt D sources init_state w3] d g by simp_all
        show ?thesis
        proof (cases include_liked)
          case True
          obtain ev_l st' w5 where e: "process_liked yt D st w4 = (ev_l, st', w5)"
            by (cases "process_liked yt D st w4") auto
          have e': "st' = bump (loops_raised (fetched_liked yt True w4))
                            (plan_labelled D st (classified (fetched_liked yt True w4)))"
            using process_liked_plan [of yt D st w4] e by simp
          show ?thesis
            using a b r1 Inr fd c d e d' e' g True
            by (simp add: preview_run_def preview_inputs_def planned_def in_sources_def
                in_liked_def plan_labelled_append plan_labelled_bump bump_bump
                loops_raised_simps)
        next
          case False
          show ?thesis
            using a b r1 Inr fd c d d' g False
            by (simp add: preview_run_def preview_inputs_def planned_def in_sources_def
                in_liked_def plan_labelled_append fetched_liked_def classified_simps
                loops_raised_simps)
        qed
      qed
    qed
  qed
qed


text \<open>A run that reports a result is a successful run, and the result is the plan.\<close>

lemma preview_run_Some:
  assumes "fst (snd (preview_run yt auth_path sources dest_title include_liked w0))
             = PreviewDone ok msg (Some r)"
  shows "\<exists>inp. preview_inputs yt auth_path sources dest_title include_liked w0 = Some inp
           \<and> r = make_result (in_dest_id inp) (planned inp) \<and> ok
           \<and> msg = ''Preview generated successfully''"
proof -
  note res = assms
  obtain r1 w1 where a: "YTMusic yt auth_path w0 = (r1, w1)"
    by (cases "YTMusic yt auth_path w0") auto
  obtain r2 w2 where b: "get_library_playlists yt 10000 w1 = (r2, w2)"
    by (cases "get_library_playlists yt 10000 w1") auto
  from res a b obtain u playlists where ok: "r1 = Inr u" "r2 = Inr playlists"
    unfolding preview_run_result
    by (cases r1; cases r2) (simp_all add: preview_failed_def)
  from res a b ok obtain dest_id where fd: "find_dest playlists dest_title = Inr dest_id"
    unfolding preview_run_result
    by (cases "find_dest playlists dest_title") (simp_all add: preview_failed_def)
  have "\<exists>inp. preview_inputs yt auth_path sources dest_title include_liked w0 = Some inp
          \<and> in_dest_id inp = dest_id"
    using a b ok fd by (simp add: preview_inputs_def case_prod_beta)
  then obtain inp where
    inp: "preview_inputs yt auth_path sources dest_title include_liked w0 = Some inp"
      "in_dest_id inp = dest_id"
    by blast
  with res a b ok fd show ?thesis
    unfolding preview_run_result by simp
qed

lemma init_state_fields:
  "to_add init_state = []" "skipped init_state = []" "seen_ids init_state = {}"
  "total_tracks init_state = 0"
  by (simp_all add: init_state_def)

lemma make_result_fields:
  "r_to_add (make_result d st) = to_add st"
  "r_skipped (make_result d st) = skipped st"
  "total_tracks_processed (r_stats (make_result d st)) = total_tracks st"
  "tracks_to_add (r_stats (make_result d st)) = length (to_add st)"
  "tracks_skipped (r_stats (make_result d st)) = length (skipped st)"
  "already_in_destination (r_stats (make_result d st))
     = count_reason ''Already in destination'' (skipped st)"
  "duplicates_removed (r_stats (make_result d st)) = count_reason ''Duplicate'' (skipped st)"
  "no_video_id (r_stats (make_result d st)) = count_reason ''No video ID'' (skipped st)"
  "destination_exists (r_stats (make_result d st))
     = (if truthy d then ''Yes'' else ''No (will be created)'')"
  by (simp_all add: make_result_def)

lemma in_well_formed: "list_all (\<lambda>x. well_formed (snd x)) (in_sources inp @ in_liked inp)"
  using classified_well_formed [of "in_source_fetches inp"]
    classified_well_formed [of "in_liked_fetches inp"]
  by (simp add: in_sources_def in_liked_def)

lemma planned_rows:
  "mset (map unreason (to_add (planned inp) @ skipped (planned inp)))
     = mset (map row (in_sources inp @ in_liked inp))"
  unfolding planned_def bump_fields rows_plan_labelled [OF in_well_formed]
  by (simp add: init_state_fields)

lemma planned_total:
  "total_tracks (planned inp) =
     length (in_sources inp @ in_liked inp)
       + loops_raised (in_source_fetches inp @ in_liked_fetches inp)"
  unfolding planned_def bump_fields total_plan_labelled by (simp add: init_state_fields)

lemma planned_to_add:
  "to_add (planned inp)
     = map row (first_seen vid_of
         (filter (addable (in_existing_ids inp)) (in_sources inp @ in_liked inp)))"
  unfolding planned_def bump_fields to_add_plan_labelled [OF in_well_formed]
  by (simp add: init_state_fields)

lemma planned_skipped: "list_all (skip_ok (in_existing_ids inp)) (skipped (planned inp))"
  unfolding planned_def bump_fields by (rule skipped_plan_labelled) (simp add: init_state_fields)

lemma planned_to_add_reason: "list_all (\<lambda>r. reason r = None) (to_add (planned inp))"
  unfolding planned_def bump_fields
  by (rule to_add_reason_plan_labelled) (simp add: init_state_fields)

lemma planned_lengths:
  "length (to_add (planned inp)) + length (skipped (planned inp))
     = length (in_sources inp @ in_liked inp)"
proof -
  have "size (mset (map unreason (to_add (planned inp) @ skipped (planned inp))))
          = size (mset (map row (in_sources inp @ in_liked inp)))"
    by (simp only: planned_rows)
  then show ?thesis by simp
qed



section \<open>Runs against the scripted library\<close>

lemma demo_calls:
  "YTMusic (demo f) a w = demo_reply f w ()"
  "get_library_playlists (demo f) l w = demo_reply f w demo_library"
  "get_liked_songs (demo f) l w = demo_reply f w demo_liked"
  "get_watch_playlist (demo f) p l w = demo_reply f w (demo_playlist_tracks p)"
  "create_playlist (demo f) t d pr w = demo_reply f w (''PL-'' @ t)"
  "add_playlist_items (demo f) p ids dup w = demo_add f p ids w"
  by (simp_all add: demo_def demo_yt_def)

lemma demo_find_dest: "find_dest demo_library ''My mix'' = Inr (Some ''PLD'')"
  by code_simp

lemma demo_track_facts:
  "well_formed (demo_track v n)"
  "row (l, demo_track v n) = demo_row v n l None"
  "track_video_id (demo_track v n) = (if v = [] then None else Some v)"
  "\<not> well_formed (demo_bad_track v n)"
  by (simp_all add: well_formed_def get_artist_text_def demo_track_def demo_bad_track_def
      row_def get_duration_text_def track_video_id_def truthy_def demo_row_def)

lemma demo_preview_inputs:
  "preview_inputs (demo []) ''browser.json'' demo_sources ''My mix'' True demo_start
     = Some demo_inputs"
  by (simp add: preview_inputs_def demo_calls demo_reply_def demo_start_def demo_find_dest
      read_destination_def fetch_tracks_def truthy_def demo_playlist_tracks_def
      tracks_or_empty_def existing_ids_def demo_track_facts
      demo_sources_def fetched_liked_def demo_liked_def demo_inputs_def)

lemma demo_classified:
  "in_sources demo_inputs =
     [(''Road Trip'', demo_track ''v1'' ''One''), (''Road Trip'', demo_track ''v2'' ''Two''),
      (''Road Trip'', demo_track ''v2'' ''Two again''), (''Road Trip'', demo_track [] ''Nameless''),
      (''Yoga'', demo_track ''v4'' ''Four'')]"
  "in_liked demo_inputs =
     [(''Liked Songs'', demo_track ''v2'' ''Two''), (''Liked Songs'', demo_track ''v3'' ''Three'')]"
  "loops_raised (in_source_fetches demo_inputs @ in_liked_fetches demo_inputs) = 0"
  "fetched demo_inputs = in_sources demo_inputs @ in_liked demo_inputs"
  by (simp_all add: in_sources_def in_liked_def fetched_def demo_inputs_def classified_def
      labelled_def loops_raised_def demo_track_facts)

lemma demo_planned:
  "make_result (Some ''PLD'') (planned demo_inputs) = demo_result"
proof -
  have "in_existing_ids demo_inputs = {''v1''}"
    by (simp add: demo_inputs_def)
  then show ?thesis
    unfolding planned_def demo_classified
    by (simp add: process_track_cases demo_track_facts init_state_def truthy_def bump_def
        make_result_def count_reason_def demo_result_def demo_row_def)
qed

lemma demo_preview:
  "fst (snd (preview_run (demo []) ''browser.json'' demo_sources ''My mix'' True demo_start))
     = PreviewDone True ''Preview generated successfully'' (Some demo_result)"
  unfolding preview_run_result demo_preview_inputs
  by (simp add: demo_calls demo_reply_def demo_start_def demo_find_dest demo_planned)

section \<open>Properties of the preview plan\<close>

lemma fetched_classified:
  "subseq (in_sources inp @ in_liked inp) (fetched inp)"
  "list_all (\<lambda>x. well_formed (snd x)) (fetched inp) \<Longrightarrow>
     in_sources inp @ in_liked inp = fetched inp
     \<and> loops_raised (in_source_fetches inp @ in_liked_fetches inp) = 0"
  using classified_subseq [of "in_source_fetches inp @ in_liked_fetches inp"]
    classified_all_well_formed [of "in_source_fetches inp @ in_liked_fetches inp"]
  by (simp_all add: in_sources_def in_liked_def fetched_def classified_simps)

text \<open>
  C1, as the code has it. In a preview run that reports a plan and in which the row of
  every fetched track can be built (\<^verbatim>\<open>get_artist_text\<close> raises on none of them), the rows
  of \<open>to_add\<close> and \<open>skipped\<close> together are, as a multiset and the reason left aside, the
  rows of the fetched tracks: the tracks of the sources whose fetch succeeded and, when
  \<open>include_liked\<close> is set, of the liked-songs fetch; and the statistic
  \<^verbatim>\<open>Total tracks processed\<close> is the number of fetched tracks and equals
  \<open>|to_add| + |skipped|\<close>. In every run that reports a plan, a row of \<open>to_add\<close> has no reason
  and a row of \<open>skipped\<close> has one; the two lists hold the rows of the classified tracks,
  which are, of every fetch, the tracks before the first one whose row cannot be built;
  and the statistic equals \<open>|to_add| + |skipped|\<close> plus the number of fetches that hold a
  track whose row cannot be built.
\<close>

theorem preview_partitions_fetched_tracks:
  assumes "fst (snd (preview_run yt auth_path sources dest_title include_liked w0))
             = PreviewDone ok msg (Some r)"
  shows "\<exists>inp. preview_inputs yt auth_path sources dest_title include_liked w0 = Some inp
           \<and> (list_all (\<lambda>x. well_formed (snd x)) (fetched inp) \<longrightarrow>
                mset (map unreason (r_to_add r @ r_skipped r)) = mset (map row (fetched inp))
                \<and> total_tracks_processed (r_stats r) = length (fetched inp)
                \<and> total_tracks_processed (r_stats r)
                    = length (r_to_add r) + length (r_skipped r))
           \<and> list_all (\<lambda>x. reason x = None) (r_to_add r)
           \<and> list_all (\<lambda>x. reason x \<noteq> None) (r_skipped r)
           \<and> subseq (in_sources inp @ in_liked inp) (fetched inp)
           \<and> mset (map unreason (r_to_add r @ r_skipped r))
               = mset (map row (in_sources inp @ in_liked inp))
           \<and> total_tracks_processed (r_stats r)
               = length (r_to_add r) + length (r_skipped r)
                 + loops_raised (in_source_fetches inp @ in_liked_fetches inp)"
proof -
  from preview_run_Some [OF assms] obtain inp where
    inp: "preview_inputs yt auth_path sources dest_title include_liked w0 = Some inp"
    and r: "r = make_result (in_dest_id inp) (planned inp)"
    by blast
  have sk: "list_all (\<lambda>x. reason x \<noteq> None) (r_skipped r)"
    using planned_skipped [of inp] r by (auto simp: list_all_iff skip_ok_def make_result_fields)
  have ad: "list_all (\<lambda>x. reason x = None) (r_to_add r)"
    using planned_to_add_reason [of inp] r by (simp add: make_result_fields)
  have rows: "mset (map unreason (r_to_add r @ r_skipped r))
                = mset (map row (in_sources inp @ in_liked inp))"
    using planned_rows [of inp] r by (simp add: make_result_fields)
  have total: "total_tracks_processed (r_stats r)
                 = length (r_to_add r) + length (r_skipped r)
                   + loops_raised (in_source_fetches inp @ in_liked_fetches inp)"
    using planned_total [of inp] planned_lengths [of inp] r by (simp add: make_result_fields)
  have wf: "mset (map unreason (r_to_add r @ r_skipped r)) = mset (map row (fetched inp))
            \<and> total_tracks_processed (r_stats r) = length (fetched inp)
            \<and> total_tracks_processed (r_stats r) = length (r_to_add r) + length (r_skipped r)"
    if "list_all (\<lambda>x. well_formed (snd x)) (fetched inp)"
  proof -
    from fetched_classified(2) [OF that]
    have eq: "in_sources inp @ in_liked inp = fetched inp"
      and zero: "loops_raised (in_source_fetches inp @ in_liked_fetches inp) = 0"
      by simp_all
    have "length (r_to_add r) + length (r_skipped r) = length (fetched inp)"
      using planned_lengths [of inp] r eq by (simp add: make_result_fields)
    with rows total eq zero show ?thesis by simp
  qed
  from inp wf ad sk fetched_classified(1) [of inp] rows total show ?thesis
    by blast
qed

lemma demo_fetched_well_formed: "list_all (\<lambda>x. well_formed (snd x)) (fetched demo_inputs)"
  unfolding demo_classified by (simp add: demo_track_facts)

theorem preview_partitions_fetched_tracks_witness:
  "fst (snd (preview_run (demo []) ''browser.json'' demo_sources ''My mix'' True demo_start))
     = PreviewDone True ''Preview generated successfully'' (Some demo_result)
   \<and> preview_inputs (demo []) ''browser.json'' demo_sources ''My mix'' True demo_start
       = Some demo_inputs
   \<and> list_all (\<lambda>x. well_formed (snd x)) (fetched demo_inputs)
   \<and> mset (map unreason (r_to_add demo_result @ r_skipped demo_result))
       = mset (map row (fetched demo_inputs))
   \<and> length (fetched demo_inputs) = 7
   \<and> total_tracks_processed (r_stats demo_result) = 7
   \<and> length (r_to_add demo_result) = 3 \<and> length (r_skipped demo_result) = 4"
proof -
  have "length (fetched demo_inputs) = 7"
    unfolding demo_classified by simp
  moreover have "length (r_to_add demo_result) = 3 \<and> length (r_skipped demo_result) = 4"
    by (simp add: demo_result_def)
  ultimately show ?thesis
    using preview_partitions_fetched_tracks [OF demo_preview] demo_preview demo_preview_inputs
      demo_fetched_well_formed
    by simp
qed

lemma demo_find_dest_new: "find_dest demo_library ''Brand New'' = Inr None"
  by code_simp

lemma demo_broken_preview_inputs:
  "preview_inputs (demo []) ''browser.json'' demo_broken_sources ''Brand New'' False demo_start
     = Some demo_broken_inputs"
  by (simp add: preview_inputs_def demo_calls demo_reply_def demo_start_def demo_find_dest_new
      read_destination_def fetch_tracks_def truthy_def demo_playlist_tracks_def
      tracks_or_empty_def demo_broken_sources_def fetched_liked_def demo_broken_inputs_def)

lemma demo_broken_classified:
  "in_sources demo_broken_inputs = [(''Broken'', demo_track ''v5'' ''Five'')]"
  "in_liked demo_broken_inputs = []"
  "loops_raised (in_source_fetches demo_broken_inputs @ in_liked_fetches demo_broken_inputs) = 1"
  "fetched demo_broken_inputs =
     [(''Broken'', demo_track ''v5'' ''Five''), (''Broken'', demo_bad_track ''v6'' ''Six''),
      (''Broken'', demo_track ''v7'' ''Seven'')]"
  by (simp_all add: in_sources_def in_liked_def fetched_def demo_broken_inputs_def
      classified_def labelled_def loops_raised_def demo_track_facts)

lemma demo_broken_planned:
  "make_result None (planned demo_broken_inputs) = demo_broken_result"
proof -
  have "in_existing_ids demo_broken_inputs = {}"
    by (simp add: demo_broken_inputs_def)
  then show ?thesis
    unfolding planned_def demo_broken_classified
    by (simp add: process_track_cases demo_track_facts init_state_def truthy_def bump_def
        make_result_def count_reason_def demo_broken_result_def demo_row_def)
qed

text \<open>
  C1 as the specification words it fails on a source whose second track has an artists
  list that holds \<^verbatim>\<open>None\<close>: the run reports a plan, three tracks were fetched, one row is
  in \<open>to_add\<close>, none is in \<open>skipped\<close>, and \<^verbatim>\<open>Total tracks processed\<close> is 2.
\<close>

theorem preview_counts_unbuilt_row_counterexample:
  "fst (snd (preview_run (demo []) ''browser.json'' demo_broken_sources ''Brand New'' False
               demo_start))
     = PreviewDone True ''Preview generated successfully'' (Some demo_broken_result)
   \<and> preview_inputs (demo []) ''browser.json'' demo_broken_sources ''Brand New'' False
         demo_start
       = Some demo_broken_inputs
   \<and> fetched demo_broken_inputs =
       [(''Broken'', demo_track ''v5'' ''Five''), (''Broken'', demo_bad_track ''v6'' ''Six''),
        (''Broken'', demo_track ''v7'' ''Seven'')]
   \<and> get_artist_text (demo_bad_track ''v6'' ''Six'') = Inl (none_has_no ''get'')
   \<and> map video_id (r_to_add demo_broken_result) = [Some ''v5'']
   \<and> r_skipped demo_broken_result = []
   \<and> total_tracks_processed (r_stats demo_broken_result) = 2
   \<and> length (r_to_add demo_broken_result) + length (r_skipped demo_broken_result) = 1"
proof -
  have run: "fst (snd (preview_run (demo []) ''browser.json'' demo_broken_sources ''Brand New''
                         False demo_start))
     = PreviewDone True ''Preview generated successfully'' (Some demo_broken_result)"
    unfolding preview_run_result demo_broken_preview_inputs
    by (simp add: demo_calls demo_reply_def demo_start_def demo_find_dest_new
        demo_broken_planned)
  have bad: "get_artist_text (demo_bad_track ''v6'' ''Six'') = Inl (none_has_no ''get'')"
    by (simp add: get_artist_text_def demo_bad_track_def demo_track_def)
  have res: "map video_id (r_to_add demo_broken_result) = [Some ''v5'']"
    "r_skipped demo_broken_result = []"
    "total_tracks_processed (r_stats demo_broken_result) = 2"
    "length (r_to_add demo_broken_result) + length (r_skipped demo_broken_result) = 1"
    by (simp_all add: demo_broken_result_def demo_row_def)
  show ?thesis
    by (intro conjI) (rule run demo_broken_preview_inputs demo_broken_classified(4) bad res)+
qed





text \<open>
  C4. In a run that reports a plan, no two rows of \<open>to_add\<close> have the same identifier,
  and every row of \<open>to_add\<close> has one.
\<close>

theorem to_add_distinct_ids:
  assumes "fst (snd (preview_run yt auth_path sources dest_title include_liked w0))
             = PreviewDone ok msg (Some r)"
  shows "distinct (map video_id (r_to_add r)) \<and> list_all (\<lambda>x. truthy (video_id x)) (r_to_add r)"
proof -
  from preview_run_Some [OF assms] obtain inp where
    r: "r = make_result (in_dest_id inp) (planned inp)"
    by blast
  let ?all = "in_sources inp @ in_liked inp"
  let ?ys = "first_seen vid_of (filter (addable (in_existing_ids inp)) ?all)"
  have ids: "map video_id (r_to_add r) = map vid_of ?ys"
    using r by (simp add: make_result_fields planned_to_add vid_row)
  have "set ?ys \<subseteq> set (filter (addable (in_existing_ids inp)) ?all)"
    by (rule first_seen_subset)
  then have "\<forall>x \<in> set ?ys. truthy (vid_of x)"
    by (auto simp: addable_def)
  then have "list_all (\<lambda>x. truthy (video_id x)) (r_to_add r)"
    using r by (simp add: make_result_fields planned_to_add vid_row list_all_iff)
  moreover have "distinct (map video_id (r_to_add r))"
    unfolding ids by (rule first_seen_distinct)
  ultimately show ?thesis by simp
qed

theorem to_add_distinct_ids_witness:
  "fst (snd (preview_run (demo []) ''browser.json'' demo_sources ''My mix'' True demo_start))
     = PreviewDone True ''Preview generated successfully'' (Some demo_result)
   \<and> map video_id (r_to_add demo_result) = [Some ''v2'', Some ''v4'', Some ''v3'']
   \<and> distinct (map video_id (r_to_add demo_result))
   \<and> list_all (\<lambda>x. truthy (video_id x)) (r_to_add demo_result)"
proof -
  have "map video_id (r_to_add demo_result) = [Some ''v2'', Some ''v4'', Some ''v3'']"
    by (simp add: demo_result_def demo_row_def)
  then show ?thesis
    using to_add_distinct_ids [OF demo_preview] demo_preview by simp
qed

section \<open>Failures during a preview\<close>

lemma process_sources_append:
  "process_sources yt D (xs @ ys) st w =
     (case process_sources yt D xs st w of
        (ev1, st1, w1) \<Rightarrow>
          (case process_sources yt D ys st1 w1 of
             (ev2, st2, w2) \<Rightarrow> (ev1 @ ev2, st2, w2)))"
proof (induction xs arbitrary: st w)
  case Nil
  then show ?case by (simp add: case_prod_beta)
next
  case (Cons x xs)
  show ?case
    by (simp add: Cons.IH case_prod_beta)
qed

lemma process_source_failed:
  assumes "fst (snd (fetch_tracks yt (src_playlistId src) w)) = Inl e"
  shows "snd (process_source yt D src st w) = (st, snd (snd (fetch_tracks yt (src_playlistId src) w)))"
proof -
  obtain ev r w' where f: "fetch_tracks yt (src_playlistId src) w = (ev, r, w')"
    by (cases "fetch_tracks yt (src_playlistId src) w") auto
  with assms show ?thesis by (simp add: process_source_def)
qed

lemma read_destination_failed:
  assumes "truthy dest_id" "fst (snd (fetch_tracks yt (the dest_id) w)) = Inl e"
  shows "fst (snd (read_destination yt dest_id w)) = {}"
proof -
  obtain ev r w' where f: "fetch_tracks yt (the dest_id) w = (ev, r, w')"
    by (cases "fetch_tracks yt (the dest_id) w") auto
  with assms show ?thesis by (simp add: read_destination_def)
qed

lemma count_reason_zero:
  "list_all (\<lambda>x. reason x \<noteq> Some r) rows \<Longrightarrow> count_reason r rows = 0"
  by (induction rows) (simp_all add: count_reason_def)

lemma preview_run_started:
  assumes "YTMusic yt auth_path w0 = (Inr u, w1)"
    and "get_library_playlists yt 10000 w1 = (Inr playlists, w2)"
    and "find_dest playlists dest_title = Inr dest"
  shows "\<exists>inp. preview_inputs yt auth_path sources dest_title include_liked w0 = Some inp
           \<and> in_dest_id inp = dest
           \<and> in_existing_ids inp = fst (snd (read_destination yt dest w2))
           \<and> fst (snd (preview_run yt auth_path sources dest_title include_liked w0))
               = PreviewDone True ''Preview generated successfully''
                   (Some (make_result dest (planned inp)))"
proof -
  have "\<exists>inp. preview_inputs yt auth_path sources dest_title include_liked w0 = Some inp
          \<and> in_dest_id inp = dest
          \<and> in_existing_ids inp = fst (snd (read_destination yt dest w2))"
    using assms by (simp add: preview_inputs_def case_prod_beta)
  then obtain inp where
    inp: "preview_inputs yt auth_path sources dest_title include_liked w0 = Some inp"
      "in_dest_id inp = dest"
      "in_existing_ids inp = fst (snd (read_destination yt dest w2))"
    by blast
  with assms show ?thesis
    unfolding preview_run_result by simp
qed

text \<open>
  C7. When the client is constructed, the library is listed, a destination with a
  non-empty identifier is found and the read of its tracks raises, the preview still
  reports a plan: the destination set is empty, no skipped row has the reason
  \<^verbatim>\<open>Already in destination\<close>, that statistic is 0, and the destination is reported as
  existing.
\<close>

theorem destination_read_failure_is_not_fatal:
  assumes "YTMusic yt auth_path w0 = (Inr u, w1)"
    and "get_library_playlists yt 10000 w1 = (Inr playlists, w2)"
    and "find_dest playlists dest_title = Inr dest"
    and "truthy dest"
    and "fst (snd (fetch_tracks yt (the dest) w2)) = Inl e"
  shows "\<exists>r inp.
           fst (snd (preview_run yt auth_path sources dest_title include_liked w0))
             = PreviewDone True ''Preview generated successfully'' (Some r)
           \<and> preview_inputs yt auth_path sources dest_title include_liked w0 = Some inp
           \<and> in_existing_ids inp = {}
           \<and> list_all (\<lambda>x. reason x \<noteq> Some ''Already in destination'') (r_skipped r)
           \<and> already_in_destination (r_stats r) = 0
           \<and> destination_exists (r_stats r) = ''Yes''"
proof -
  from preview_run_started [OF assms(1,2,3), of sources include_liked]
  obtain inp where
    inp: "preview_inputs yt auth_path sources dest_title include_liked w0 = Some inp"
    and ids: "in_existing_ids inp = fst (snd (read_destination yt dest w2))"
    and res: "fst (snd (preview_run yt auth_path sources dest_title include_liked w0))
               = PreviewDone True ''Preview generated successfully''
                   (Some (make_result dest (planned inp)))"
    by blast
  have empty: "in_existing_ids inp = {}"
    unfolding ids by (rule read_destination_failed [OF assms(4,5)])
  have "list_all (skip_ok {}) (skipped (planned inp))"
    using planned_skipped [of inp] empty by simp
  then have no: "list_all (\<lambda>x. reason x \<noteq> Some ''Already in destination'') (skipped (planned inp))"
    by (auto simp: list_all_iff skip_ok_def)
  show ?thesis
    using res inp empty no count_reason_zero [OF no] assms(4)
    by (simp add: make_result_fields)
qed

lemma demo_preview_inputs_no_destination_read:
  "preview_inputs (demo [2]) ''browser.json'' demo_sources ''My mix'' True demo_start
     = Some (demo_inputs\<lparr>in_existing_ids := {}\<rparr>)"
  by (simp add: preview_inputs_def demo_calls demo_reply_def demo_start_def demo_find_dest
      read_destination_def fetch_tracks_def truthy_def demo_playlist_tracks_def
      tracks_or_empty_def existing_ids_def demo_track_facts
      demo_sources_def fetched_liked_def demo_liked_def demo_inputs_def)

lemma demo_planned_no_destination_read:
  "map video_id (to_add (planned (demo_inputs\<lparr>in_existing_ids := {}\<rparr>)))
     = [Some ''v1'', Some ''v2'', Some ''v4'', Some ''v3'']"
  "map reason (skipped (planned (demo_inputs\<lparr>in_existing_ids := {}\<rparr>)))
     = [Some ''Duplicate'', Some ''No video ID'', Some ''Duplicate'']"
proof -
  have same: "in_sources (demo_inputs\<lparr>in_existing_ids := {}\<rparr>) = in_sources demo_inputs"
    "in_liked (demo_inputs\<lparr>in_existing_ids := {}\<rparr>) = in_liked demo_inputs"
    by (simp_all add: in_sources_def in_liked_def)
  show "map video_id (to_add (planned (demo_inputs\<lparr>in_existing_ids := {}\<rparr>)))
     = [Some ''v1'', Some ''v2'', Some ''v4'', Some ''v3'']"
    "map reason (skipped (planned (demo_inputs\<lparr>in_existing_ids := {}\<rparr>)))
     = [Some ''Duplicate'', Some ''No video ID'', Some ''Duplicate'']"
    unfolding planned_def same demo_classified(1,2)
    by (simp_all add: process_track_cases demo_track_facts init_state_def truthy_def
        bump_fields demo_row_def)
qed

theorem destination_read_failure_is_not_fatal_witness:
  "YTMusic (demo [2]) ''browser.json'' demo_start
     = (Inr (), \<lparr> calls_made = 1, stored = [] \<rparr>)
   \<and> get_library_playlists (demo [2]) 10000 \<lparr> calls_made = 1, stored = [] \<rparr>
       = (Inr demo_library, \<lparr> calls_made = 2, stored = [] \<rparr>)
   \<and> find_dest demo_library ''My mix'' = Inr (Some ''PLD'')
   \<and> fst (snd (fetch_tracks (demo [2]) ''PLD'' \<lparr> calls_made = 2, stored = [] \<rparr>))
       = Inl (Error ''HTTP 503'')
   \<and> (\<exists>r. fst (snd (preview_run (demo [2]) ''browser.json'' demo_sources ''My mix'' True
                        demo_start))
             = PreviewDone True ''Preview generated successfully'' (Some r)
          \<and> map video_id (r_to_add r) = [Some ''v1'', Some ''v2'', Some ''v4'', Some ''v3'']
          \<and> map reason (r_skipped r) = [Some ''Duplicate'', Some ''No video ID'', Some ''Duplicate'']
          \<and> already_in_destination (r_stats r) = 0
          \<and> destination_exists (r_stats r) = ''Yes'')"
proof -
  have a: "YTMusic (demo [2]) ''browser.json'' demo_start
             = (Inr (), \<lparr> calls_made = 1, stored = [] \<rparr>)"
    by (simp add: demo_calls demo_reply_def demo_start_def)
  have b: "get_library_playlists (demo [2]) 10000 \<lparr> calls_made = 1, stored = [] \<rparr>
             = (Inr demo_library, \<lparr> calls_made = 2, stored = [] \<rparr>)"
    by (simp add: demo_calls demo_reply_def)
  have c: "truthy (Some ''PLD'')"
    by (simp add: truthy_def)
  have d: "fst (snd (fetch_tracks (demo [2]) (the (Some ''PLD''))
                  \<lparr> calls_made = 2, stored = [] \<rparr>)) = Inl (Error ''HTTP 503'')"
    by (simp add: fetch_tracks_def demo_calls demo_reply_def)
  from destination_read_failure_is_not_fatal [OF a b demo_find_dest c d, of demo_sources True]
  obtain r where
    r: "fst (snd (preview_run (demo [2]) ''browser.json'' demo_sources ''My mix'' True demo_start))
          = PreviewDone True ''Preview generated successfully'' (Some r)"
       "already_in_destination (r_stats r) = 0" "destination_exists (r_stats r) = ''Yes''"
    by blast
  from preview_run_Some [OF r(1)] have "r = make_result (Some ''PLD'')
      (planned (demo_inputs\<lparr>in_existing_ids := {}\<rparr>))"
    by (simp add: demo_preview_inputs_no_destination_read demo_inputs_def)
  then have "map video_id (r_to_add r) = [Some ''v1'', Some ''v2'', Some ''v4'', Some ''v3'']"
    "map reason (r_skipped r) = [Some ''Duplicate'', Some ''No video ID'', Some ''Duplicate'']"
    by (simp_all add: make_result_fields demo_planned_no_destination_read)
  with a b d r show ?thesis
    by (simp add: demo_find_dest)
qed

lemma preview_run_client_failed:
  assumes "YTMusic yt auth_path w0 = (Inl e, w1)"
  shows "preview_run yt auth_path sources dest_title include_liked w0
           = ([Call (NewYTMusic auth_path)], preview_failed e, w1)"
  using assms by (simp add: preview_run_def)

lemma process_source_fetched:
  assumes "fst (snd (fetch_tracks yt (src_playlistId src) w)) = Inr tracks"
  shows "fst (snd (process_source yt D src st w)) =
           bump (if list_all well_formed tracks then 0 else 1)
             (plan_labelled D st (map (Pair (src_title src)) (takeWhile well_formed tracks)))"
proof -
  obtain ev r w' where f: "fetch_tracks yt (src_playlistId src) w = (ev, r, w')"
    by (cases "fetch_tracks yt (src_playlistId src) w") auto
  with assms show ?thesis by (simp add: process_source_def process_tracks_labelled)
qed

text \<open>
  C6, as the code has it. A source whose fetch raises leaves the plan as it was, and the
  sources after it are processed from that plan. A source whose fetch succeeds contributes
  its tracks up to the first one whose row cannot be built: the raise of that track is
  caught by the same handler, with the counter moved on by one. The preview ends with a
  failure result exactly when the construction of the client raises, or the listing of
  the library raises, or the title comparison of the destination lookup raises on an
  entry of the listing; the message carries that exception. In every other run it reports
  a plan.
\<close>

theorem preview_failure_causes:
  "(process_sources yt D pre st w = (ev1, st1, w1)
      \<and> fst (snd (fetch_tracks yt (src_playlistId src) w1)) = Inl e
    \<longrightarrow> snd (process_source yt D src st1 w1)
          = (st1, snd (snd (fetch_tracks yt (src_playlistId src) w1)))
        \<and> snd (process_sources yt D (pre @ src # post) st w)
          = snd (process_sources yt D post st1
                   (snd (snd (fetch_tracks yt (src_playlistId src) w1)))))
   \<and> (fst (snd (fetch_tracks yt (src_playlistId src) w1)) = Inr tracks
    \<longrightarrow> fst (snd (process_source yt D src st1 w1))
          = bump (if list_all well_formed tracks then 0 else 1)
              (plan_labelled D st1
                 (map (Pair (src_title src)) (takeWhile well_formed tracks))))
   \<and> ((\<exists>m. fst (snd (preview_run yt auth_path sources dest_title include_liked w0))
               = PreviewDone False m None)
        \<longleftrightarrow> (\<exists>e' w'. YTMusic yt auth_path w0 = (Inl e', w'))
            \<or> (\<exists>e' w'. get_library_playlists yt 10000 (snd (YTMusic yt auth_path w0))
                          = (Inl e', w'))
            \<or> (\<exists>u w' playlists w'' e'.
                  YTMusic yt auth_path w0 = (Inr u, w')
                  \<and> get_library_playlists yt 10000 w' = (Inr playlists, w'')
                  \<and> find_dest playlists dest_title = Inl e'))
   \<and> (fst (snd (preview_run yt auth_path sources dest_title include_liked w0)) =
        (case YTMusic yt auth_path w0 of
           (Inl e', w') \<Rightarrow> PreviewDone False (''Failed to generate preview: '' @ str_error e') None
         | (Inr u, w') \<Rightarrow>
             (case get_library_playlists yt 10000 w' of
                (Inl e', w'') \<Rightarrow>
                  PreviewDone False (''Failed to generate preview: '' @ str_error e') None
              | (Inr playlists, w'') \<Rightarrow>
                  (case find_dest playlists dest_title of
                     Inl e' \<Rightarrow>
                       PreviewDone False (''Failed to generate preview: '' @ str_error e') None
                   | Inr dest_id \<Rightarrow>
                       PreviewDone True ''Preview generated successfully''
                         (Some (make_result dest_id
                            (planned (the (preview_inputs yt auth_path sources dest_title
                                             include_liked w0)))))))))"
proof -
  have src: "snd (process_source yt D src st1 w1)
          = (st1, snd (snd (fetch_tracks yt (src_playlistId src) w1)))
        \<and> snd (process_sources yt D (pre @ src # post) st w)
          = snd (process_sources yt D post st1
                   (snd (snd (fetch_tracks yt (src_playlistId src) w1))))"
    if pre: "process_sources yt D pre st w = (ev1, st1, w1)"
      and f: "fst (snd (fetch_tracks yt (src_playlistId src) w1)) = Inl e"
  proof -
    have one: "snd (process_source yt D src st1 w1)
                 = (st1, snd (snd (fetch_tracks yt (src_playlistId src) w1)))"
      by (rule process_source_failed [OF f])
    obtain ev2 where two: "process_source yt D src st1 w1
                 = (ev2, st1, snd (snd (fetch_tracks yt (src_playlistId src) w1)))"
      using one by (cases "process_source yt D src st1 w1") auto
    show ?thesis
      using one by (simp add: process_sources_append pre two case_prod_beta)
  qed
  have loop: "fst (snd (fetch_tracks yt (src_playlistId src) w1)) = Inr tracks
    \<longrightarrow> fst (snd (process_source yt D src st1 w1))
          = bump (if list_all well_formed tracks then 0 else 1)
              (plan_labelled D st1
                 (map (Pair (src_title src)) (takeWhile well_formed tracks)))"
    using process_source_fetched [of yt src w1 tracks D st1] by blast
  have res: "fst (snd (preview_run yt auth_path sources dest_title include_liked w0)) =
        (case YTMusic yt auth_path w0 of
           (Inl e', w') \<Rightarrow> PreviewDone False (''Failed to generate preview: '' @ str_error e') None
         | (Inr u, w') \<Rightarrow>
             (case get_library_playlists yt 10000 w' of
                (Inl e', w'') \<Rightarrow>
                  PreviewDone False (''Failed to generate preview: '' @ str_error e') None
              | (Inr playlists, w'') \<Rightarrow>
                  (case find_dest playlists dest_title of
                     Inl e' \<Rightarrow>
                       PreviewDone False (''Failed to generate preview: '' @ str_error e') None
                   | Inr dest_id \<Rightarrow>
                       PreviewDone True ''Preview generated successfully''
                         (Some (make_result dest_id
                            (planned (the (preview_inputs yt auth_path sources dest_title
                                             include_liked w0))))))))"
    unfolding preview_run_result preview_failed_def by (rule refl)
  obtain r1 w1' where a: "YTMusic yt auth_path w0 = (r1, w1')"
    by (cases "YTMusic yt auth_path w0") auto
  obtain r2 w2' where b: "get_library_playlists yt 10000 w1' = (r2, w2')"
    by (cases "get_library_playlists yt 10000 w1'") auto
  have iff: "(\<exists>m. fst (snd (preview_run yt auth_path sources dest_title include_liked w0))
               = PreviewDone False m None)
        \<longleftrightarrow> (\<exists>e' w'. YTMusic yt auth_path w0 = (Inl e', w'))
            \<or> (\<exists>e' w'. get_library_playlists yt 10000 (snd (YTMusic yt auth_path w0))
                          = (Inl e', w'))
            \<or> (\<exists>u w' playlists w'' e'.
                  YTMusic yt auth_path w0 = (Inr u, w')
                  \<and> get_library_playlists yt 10000 w' = (Inr playlists, w'')
                  \<and> find_dest playlists dest_title = Inl e')"
  proof (cases r1)
    case (Inl e1)
    with a show ?thesis unfolding res by simp
  next
    case r1: (Inr u)
    show ?thesis
    proof (cases r2)
      case (Inl e2)
      with a b r1 show ?thesis unfolding res by simp
    next
      case (Inr playlists)
      with a b r1 show ?thesis
        unfolding res by (cases "find_dest playlists dest_title") simp_all
    qed
  qed
  from src loop iff res show ?thesis by blast
qed

lemma demo_preview_inputs_source_failed:
  "preview_inputs (demo [3]) ''browser.json'' demo_sources ''My mix'' True demo_start
     = Some (demo_inputs\<lparr>in_source_fetches := [(''Yoga'', [demo_track ''v4'' ''Four''])]\<rparr>)"
  by (simp add: preview_inputs_def demo_calls demo_reply_def demo_start_def demo_find_dest
      read_destination_def fetch_tracks_def truthy_def demo_playlist_tracks_def
      tracks_or_empty_def existing_ids_def demo_track_facts
      demo_sources_def fetched_liked_def demo_liked_def demo_inputs_def)

lemma demo_planned_source_failed:
  "map video_id (to_add (planned
      (demo_inputs\<lparr>in_source_fetches := [(''Yoga'', [demo_track ''v4'' ''Four''])]\<rparr>)))
     = [Some ''v4'', Some ''v2'', Some ''v3'']"
  "skipped (planned
      (demo_inputs\<lparr>in_source_fetches := [(''Yoga'', [demo_track ''v4'' ''Four''])]\<rparr>)) = []"
proof -
  let ?inp = "demo_inputs\<lparr>in_source_fetches := [(''Yoga'', [demo_track ''v4'' ''Four''])]\<rparr>"
  have same: "in_sources ?inp = [(''Yoga'', demo_track ''v4'' ''Four'')]"
    "in_liked ?inp = in_liked demo_inputs" "in_existing_ids ?inp = {''v1''}"
    by (simp_all add: in_sources_def in_liked_def classified_def demo_track_facts
        demo_inputs_def)
  show "map video_id (to_add (planned ?inp)) = [Some ''v4'', Some ''v2'', Some ''v3'']"
    "skipped (planned ?inp) = []"
    unfolding planned_def same demo_classified(2)
    by (simp_all add: process_track_cases demo_track_facts init_state_def truthy_def
        bump_fields demo_row_def)
qed

lemma demo_bad_title_calls:
  "YTMusic demo_bad_title a w = demo_reply [] w ()"
  "get_library_playlists demo_bad_title l w = demo_reply [] w demo_library_bad_title"
  by (simp_all add: demo_bad_title_def demo_yt_def)

lemma demo_find_dest_bad_title:
  "find_dest demo_library_bad_title ''My mix'' = Inl (none_has_no ''strip'')"
  by (simp add: demo_library_bad_title_def title_matches_def)

theorem preview_failure_causes_witness:
  "process_sources (demo [3]) {''v1''} [] init_state \<lparr> calls_made = 3, stored = [] \<rparr>
     = ([], init_state, \<lparr> calls_made = 3, stored = [] \<rparr>)
   \<and> fst (snd (fetch_tracks (demo [3]) ''PLX'' \<lparr> calls_made = 3, stored = [] \<rparr>))
       = Inl (Error ''HTTP 503'')
   \<and> snd (process_sources (demo [3]) {''v1''} demo_sources init_state
             \<lparr> calls_made = 3, stored = [] \<rparr>)
       = snd (process_sources (demo [3]) {''v1''}
                [\<lparr> src_title = ''Yoga'', src_playlistId = ''PLY'' \<rparr>] init_state
                \<lparr> calls_made = 4, stored = [] \<rparr>)
   \<and> (\<exists>r. fst (snd (preview_run (demo [3]) ''browser.json'' demo_sources ''My mix'' True
                        demo_start))
             = PreviewDone True ''Preview generated successfully'' (Some r)
          \<and> map video_id (r_to_add r) = [Some ''v4'', Some ''v2'', Some ''v3''])
   \<and> fst (snd (fetch_tracks (demo []) ''PLZ'' \<lparr> calls_made = 2, stored = [] \<rparr>))
       = Inr [demo_track ''v5'' ''Five'', demo_bad_track ''v6'' ''Six'',
              demo_track ''v7'' ''Seven'']
   \<and> fst (snd (process_source (demo []) {} \<lparr> src_title = ''Broken'', src_playlistId = ''PLZ'' \<rparr>
                  init_state \<lparr> calls_made = 2, stored = [] \<rparr>))
       = \<lparr> to_add = [demo_row ''v5'' ''Five'' ''Broken'' None], skipped = [],
           seen_ids = {''v5''}, total_tracks = 2 \<rparr>
   \<and> get_library_playlists (demo [1]) 10000 (snd (YTMusic (demo [1]) ''browser.json'' demo_start))
       = (Inl (Error ''HTTP 503''), \<lparr> calls_made = 2, stored = [] \<rparr>)
   \<and> fst (snd (preview_run (demo [1]) ''browser.json'' demo_sources ''My mix'' True demo_start))
       = PreviewDone False ''Failed to generate preview: HTTP 503'' None
   \<and> find_dest demo_library_bad_title ''My mix'' = Inl (none_has_no ''strip'')
   \<and> fst (snd (preview_run demo_bad_title ''browser.json'' demo_sources ''My mix'' True
                  demo_start))
       = PreviewDone False (''Failed to generate preview: '' @ str_error (none_has_no ''strip''))
           None"
proof -
  let ?w2 = "\<lparr> calls_made = 2, stored = [] \<rparr>"
  let ?w3 = "\<lparr> calls_made = 3, stored = [] \<rparr>"
  let ?yoga = "\<lparr> src_title = ''Yoga'', src_playlistId = ''PLY'' \<rparr>"
  let ?road = "\<lparr> src_title = ''Road Trip'', src_playlistId = ''PLX'' \<rparr>"
  let ?broken = "\<lparr> src_title = ''Broken'', src_playlistId = ''PLZ'' \<rparr>"
  have pre: "process_sources (demo [3]) {''v1''} [] init_state ?w3 = ([], init_state, ?w3)"
    by simp
  have f: "fetch_tracks (demo [3]) ''PLX'' ?w3
             = ([Call (GetWatchPlaylist ''PLX'' 10000)], Inl (Error ''HTTP 503''),
                \<lparr> calls_made = 4, stored = [] \<rparr>)"
    by (simp add: fetch_tracks_def demo_calls demo_reply_def)
  have f': "fst (snd (fetch_tracks (demo [3]) (src_playlistId ?road) ?w3)) = Inl (Error ''HTTP 503'')"
    using f by simp
  have one: "snd (process_sources (demo [3]) {''v1''} demo_sources init_state ?w3)
       = snd (process_sources (demo [3]) {''v1''} [?yoga] init_state
                \<lparr> calls_made = 4, stored = [] \<rparr>)"
    using preview_failure_causes [where yt = "demo [3]" and D = "{''v1''}" and pre = "[]"
        and st = init_state and w = ?w3 and ?ev1.0 = "[]" and ?st1.0 = init_state
        and ?w1.0 = ?w3 and src = ?road and e = "Error ''HTTP 503''" and post = "[?yoga]"]
      pre f' f
    by (simp add: demo_sources_def)
  have a3: "YTMusic (demo [3]) ''browser.json'' demo_start
             = (Inr (), \<lparr> calls_made = 1, stored = [] \<rparr>)"
    by (simp add: demo_calls demo_reply_def demo_start_def)
  have b3: "get_library_playlists (demo [3]) 10000 \<lparr> calls_made = 1, stored = [] \<rparr>
             = (Inr demo_library, \<lparr> calls_made = 2, stored = [] \<rparr>)"
    by (simp add: demo_calls demo_reply_def)
  have two: "fst (snd (preview_run (demo [3]) ''browser.json'' demo_sources ''My mix'' True
                        demo_start))
             = PreviewDone True ''Preview generated successfully''
                 (Some (make_result (Some ''PLD'')
                    (planned (demo_inputs
                       \<lparr>in_source_fetches := [(''Yoga'', [demo_track ''v4'' ''Four''])]\<rparr>))))"
    using preview_failure_causes [where yt = "demo [3]" and auth_path = "''browser.json''"
        and sources = demo_sources and dest_title = "''My mix''" and include_liked = True
        and ?w0.0 = demo_start] a3 b3
    by (simp add: demo_find_dest demo_preview_inputs_source_failed)
  have g: "fetch_tracks (demo []) ''PLZ'' ?w2
             = ([Call (GetWatchPlaylist ''PLZ'' 10000)],
                Inr [demo_track ''v5'' ''Five'', demo_bad_track ''v6'' ''Six'',
                     demo_track ''v7'' ''Seven''], ?w3)"
    by (simp add: fetch_tracks_def demo_calls demo_reply_def demo_playlist_tracks_def
        tracks_or_empty_def)
  have g': "fst (snd (fetch_tracks (demo []) (src_playlistId ?broken) ?w2))
              = Inr [demo_track ''v5'' ''Five'', demo_bad_track ''v6'' ''Six'',
                     demo_track ''v7'' ''Seven'']"
    using g by simp
  have loop: "fst (snd (process_source (demo []) {} ?broken init_state ?w2))
       = \<lparr> to_add = [demo_row ''v5'' ''Five'' ''Broken'' None], skipped = [],
           seen_ids = {''v5''}, total_tracks = 2 \<rparr>"
    using preview_failure_causes [where yt = "demo []" and D = "{}" and src = ?broken
        and ?st1.0 = init_state and ?w1.0 = ?w2
        and tracks = "[demo_track ''v5'' ''Five'', demo_bad_track ''v6'' ''Six'',
                       demo_track ''v7'' ''Seven'']"] g'
    by (simp add: demo_track_facts process_track_cases init_state_def truthy_def bump_def)
  have a1: "YTMusic (demo [1]) ''browser.json'' demo_start
             = (Inr (), \<lparr> calls_made = 1, stored = [] \<rparr>)"
    by (simp add: demo_calls demo_reply_def demo_start_def)
  have b1: "get_library_playlists (demo [1]) 10000 \<lparr> calls_made = 1, stored = [] \<rparr>
             = (Inl (Error ''HTTP 503''), \<lparr> calls_made = 2, stored = [] \<rparr>)"
    by (simp add: demo_calls demo_reply_def)
  have three: "fst (snd (preview_run (demo [1]) ''browser.json'' demo_sources ''My mix'' True
                          demo_start))
       = PreviewDone False ''Failed to generate preview: HTTP 503'' None"
    using preview_failure_causes [where yt = "demo [1]" and auth_path = "''browser.json''"
        and sources = demo_sources and dest_title = "''My mix''" and include_liked = True
        and ?w0.0 = demo_start] a1 b1
    by simp
  have a0: "YTMusic demo_bad_title ''browser.json'' demo_start
             = (Inr (), \<lparr> calls_made = 1, stored = [] \<rparr>)"
    by (simp add: demo_bad_title_calls demo_reply_def demo_start_def)
  have b0: "get_library_playlists demo_bad_title 10000 \<lparr> calls_made = 1, stored = [] \<rparr>
             = (Inr demo_library_bad_title, \<lparr> calls_made = 2, stored = [] \<rparr>)"
    by (simp add: demo_bad_title_calls demo_reply_def)
  have four: "fst (snd (preview_run demo_bad_title ''browser.json'' demo_sources ''My mix'' True
                          demo_start))
       = PreviewDone False (''Failed to generate preview: '' @ str_error (none_has_no ''strip''))
           None"
    using preview_failure_causes [where yt = demo_bad_title and auth_path = "''browser.json''"
        and sources = demo_sources and dest_title = "''My mix''" and include_liked = True
        and ?w0.0 = demo_start] a0 b0
    by (simp add: demo_find_dest_bad_title)
  have ex: "\<exists>r. fst (snd (preview_run (demo [3]) ''browser.json'' demo_sources ''My mix'' True
                        demo_start))
             = PreviewDone True ''Preview generated successfully'' (Some r)
          \<and> map video_id (r_to_add r) = [Some ''v4'', Some ''v2'', Some ''v3'']"
    using two by (simp add: make_result_fields demo_planned_source_failed)
  have f1: "fst (snd (fetch_tracks (demo [3]) ''PLX'' ?w3)) = Inl (Error ''HTTP 503'')"
    using f by simp
  have g1: "fst (snd (fetch_tracks (demo []) ''PLZ'' ?w2))
              = Inr [demo_track ''v5'' ''Five'', demo_bad_track ''v6'' ''Six'',
                     demo_track ''v7'' ''Seven'']"
    using g by simp
  have l1: "get_library_playlists (demo [1]) 10000
              (snd (YTMusic (demo [1]) ''browser.json'' demo_start))
       = (Inl (Error ''HTTP 503''), \<lparr> calls_made = 2, stored = [] \<rparr>)"
    using a1 b1 by simp
  show ?thesis
    by (intro conjI) (rule pre f1 one ex g1 loop l1 three demo_find_dest_bad_title four)+
qed

text \<open>
  C6 as the specification words it fails where the construction of the client raises: the
  preview ends with a failure result although the library is never listed, and listing
  it in the world of that moment succeeds.
\<close>

theorem preview_fails_without_listing_counterexample:
  "preview_run (demo [0]) ''browser.json'' demo_sources ''My mix'' True demo_start
     = ([Call (NewYTMusic ''browser.json'')],
        PreviewDone False ''Failed to generate preview: HTTP 503'' None,
        \<lparr> calls_made = 1, stored = [] \<rparr>)
   \<and> fst (get_library_playlists (demo [0]) 10000 \<lparr> calls_made = 1, stored = [] \<rparr>)
       = Inr demo_library"
proof -
  have "YTMusic (demo [0]) ''browser.json'' demo_start
          = (Inl (Error ''HTTP 503''), \<lparr> calls_made = 1, stored = [] \<rparr>)"
    by (simp add: demo_calls demo_reply_def demo_start_def)
  from preview_run_client_failed [OF this] show ?thesis
    by (simp add: preview_failed_def demo_calls demo_reply_def)
qed

section \<open>Batches\<close>

lemma n_batches_less: "k < n_batches n \<longleftrightarrow> 50 * k < n"
proof -
  have "k < (n + 49) div 50 \<longleftrightarrow> Suc k \<le> (n + 49) div 50"
    by (simp add: Suc_le_eq)
  also have "\<dots> \<longleftrightarrow> Suc k * 50 \<le> n + 49"
    by (simp add: less_eq_div_iff_mult_less_eq)
  also have "\<dots> \<longleftrightarrow> 50 * k < n"
    by (simp add: Suc_le_eq [symmetric] mult.commute)
  finally show ?thesis by (simp add: n_batches_def)
qed

lemma n_batches_pos: "xs \<noteq> [] \<Longrightarrow> 0 < n_batches (length xs)"
  by (simp add: n_batches_less)

lemma n_batches_upper: "n \<le> 50 * n_batches n"
  using n_batches_less [of "n_batches n" n] by simp

lemma n_batches_step: "0 < n \<Longrightarrow> n_batches n = Suc (n_batches (n - 50))"
proof (cases "50 \<le> n")
  case True
  then have "n + 49 = (n - 50 + 49) + 50"
    by simp
  then have "(n + 49) div 50 = Suc ((n - 50 + 49) div 50)"
    by (simp only: div_add_self2)
  then show ?thesis by (simp add: n_batches_def)
next
  case False
  assume "0 < n"
  with False have "\<not> 50 * 1 < n" "50 * 0 < n"
    by simp_all
  then have "\<not> 1 < n_batches n" "0 < n_batches n"
    unfolding n_batches_less by simp_all
  then have "n_batches n = 1"
    by simp
  moreover have "n_batches (n - 50) = 0"
    using False by (simp add: n_batches_def)
  ultimately show ?thesis by simp
qed

lemma batches_nonempty: "xs \<noteq> [] \<Longrightarrow> batches xs = take 50 xs # batches (drop 50 xs)"
  by (subst batches.simps) simp

lemma batches_Nil [simp]: "batches [] = []"
  by (subst batches.simps) simp

lemma batches_by_index: "batches xs = map (batch_at xs) [0..<n_batches (length xs)]"
proof (induction xs rule: batches.induct)
  case (1 xs)
  show ?case
  proof (cases "xs = []")
    case True
    then show ?thesis by (simp add: n_batches_def)
  next
    case False
    have shift: "map (batch_at (drop 50 xs)) [0..<m] = map (batch_at xs) (map Suc [0..<m])" for m
      by (simp add: batch_at_def add.commute)
    have "batches xs = take 50 xs # map (batch_at (drop 50 xs)) [0..<n_batches (length xs - 50)]"
      using False "1.IH" by (simp add: batches_nonempty)
    also have "\<dots> = batch_at xs 0 # map (batch_at xs) (map Suc [0..<n_batches (length xs - 50)])"
      unfolding shift by (simp add: batch_at_def)
    also have "\<dots> = map (batch_at xs) [0..<Suc (n_batches (length xs - 50))]"
      unfolding map_Suc_upt by (simp add: upt_rec)
    also have "\<dots> = map (batch_at xs) [0..<n_batches (length xs)]"
      using False n_batches_step [of "length xs"] by simp
    finally show ?thesis .
  qed
qed

lemma length_batches: "length (batches xs) = (length xs + 49) div 50"
  by (simp add: batches_by_index n_batches_def)

lemma concat_batches: "concat (batches xs) = xs"
proof (induction xs rule: batches.induct)
  case (1 xs)
  show ?case
  proof (cases "xs = []")
    case True
    then show ?thesis by simp
  next
    case False
    with "1.IH" show ?thesis by (simp add: batches_nonempty)
  qed
qed

lemma length_batch_at: "length (batch_at xs j) = min 50 (length xs - 50 * j)"
  by (simp add: batch_at_def min.commute)

lemma batches_sizes:
  "j < length (batches xs) \<Longrightarrow>
     length (batches xs ! j) = (if Suc j < length (batches xs) then 50 else length xs - 50 * j)
     \<and> 0 < length (batches xs ! j) \<and> length (batches xs ! j) \<le> 50"
proof -
  assume j: "j < length (batches xs)"
  then have jn: "j < n_batches (length xs)"
    by (simp add: batches_by_index)
  then have lt: "50 * j < length xs"
    by (simp add: n_batches_less)
  have nth: "batches xs ! j = batch_at xs j"
    using jn by (simp add: batches_by_index)
  show ?thesis
  proof (cases "Suc j < length (batches xs)")
    case True
    then have "50 * Suc j < length xs"
      by (simp add: batches_by_index n_batches_less)
    then show ?thesis using True nth by (simp add: length_batch_at)
  next
    case False
    then have "\<not> 50 * Suc j < length xs"
      by (simp add: batches_by_index n_batches_less)
    then show ?thesis using False nth lt by (simp add: length_batch_at)
  qed
qed

lemma progress_after_batch:
  "50 * j < n \<Longrightarrow> (50 * j + min 50 (n - 50 * j)) * 100 div n = progress_after n j"
proof -
  assume "50 * j < n"
  then have "50 * j + min 50 (n - 50 * j) = min n (50 * (j + 1))"
    by simp
  then show ?thesis by (simp add: progress_after_def)
qed

lemma progress_after_mono: "j \<le> k \<Longrightarrow> progress_after n j \<le> progress_after n k"
  unfolding progress_after_def
  by (intro div_le_mono mult_le_mono1 min.mono) simp_all

lemma progress_after_last: "0 < n \<Longrightarrow> progress_after n (n_batches n - 1) = 100"
proof -
  assume n: "0 < n"
  have "0 < n_batches n"
    using n by (simp add: n_batches_less)
  then have "n \<le> 50 * (n_batches n - 1 + 1)"
    using n_batches_upper [of n] by simp
  then have "min n (50 * (n_batches n - 1 + 1)) = n"
    by simp
  then show ?thesis using n by (simp add: progress_after_def)
qed

lemma sorted_progress: "sorted (map (progress_after n) [0..<f])"
  by (simp add: sorted_iff_nth_mono progress_after_mono)

section \<open>The batch loop\<close>

lemma calls_of_append [simp]: "calls_of (xs @ ys) = calls_of xs @ calls_of ys"
  by (simp add: calls_of_def)

lemma calls_of_Nil [simp]: "calls_of [] = []"
  by (simp add: calls_of_def)


lemma add_calls_append [simp]: "add_calls (xs @ ys) = add_calls xs @ add_calls ys"
  by (simp add: add_calls_def)

lemma add_calls_Nil [simp]: "add_calls [] = []"
  by (simp add: add_calls_def)

lemma progress_values_append [simp]:
  "progress_values (xs @ ys) = progress_values xs @ progress_values ys"
  by (simp add: progress_values_def)

lemma progress_values_Nil [simp]: "progress_values [] = []"
  by (simp add: progress_values_def)

lemma batch_events_calls:
  "calls_of (batch_events d vids j) = [AddPlaylistItems d (batch_at vids j) False]"
  "add_calls (batch_events d vids j) = [AddPlaylistItems d (batch_at vids j) False]"
  "progress_values (batch_events d vids j) = []"
  by (simp_all add: batch_events_def calls_of_def add_calls_def progress_values_def)

lemma batch_round_calls:
  "calls_of (batch_round d vids j) = [AddPlaylistItems d (batch_at vids j) False]"
  "add_calls (batch_round d vids j) = [AddPlaylistItems d (batch_at vids j) False]"
  "progress_values (batch_round d vids j) = [progress_after (length vids) j]"
  by (simp_all add: batch_round_def batch_events_def calls_of_def add_calls_def
      progress_values_def)

lemma rounds_calls:
  "calls_of (concat (map (batch_round d vids) js))
     = map (\<lambda>j. AddPlaylistItems d (batch_at vids j) False) js"
  "add_calls (concat (map (batch_round d vids) js))
     = map (\<lambda>j. AddPlaylistItems d (batch_at vids j) False) js"
  "progress_values (concat (map (batch_round d vids) js)) = map (progress_after (length vids)) js"
  by (induction js) (simp_all add: batch_round_calls)

lemma perform_all_append:
  "perform_all yt (cs @ ds) w =
     (case perform_all yt cs w of
        (rs, w') \<Rightarrow> (case perform_all yt ds w' of (rs', w'') \<Rightarrow> (rs @ rs', w'')))"
  by (induction cs arbitrary: w) (simp_all add: case_prod_beta)

lemma add_batches_stop:
  "\<not> i < length vids \<Longrightarrow> add_batches yt d vids i w = ([], None, w)"
  by (subst add_batches.simps) simp

lemma add_batches_round:
  assumes "50 * k < length vids"
  shows "add_batches yt d vids (50 * k) w =
     (case add_playlist_items yt d (batch_at vids k) False w of
        (Inl e, w') \<Rightarrow> (batch_events d vids k, Some e, w')
      | (Inr u, w') \<Rightarrow>
          (case add_batches yt d vids (50 * Suc k) w' of
             (evs, r, w'') \<Rightarrow> (batch_round d vids k @ evs, r, w'')))"
proof -
  have p: "(50 * k + length (batch_at vids k)) * 100 div length vids
             = progress_after (length vids) k"
    using progress_after_batch [OF assms] by (simp add: length_batch_at)
  have s: "50 * k + 50 = 50 * Suc k"
    by simp
  have num: "50 * k div 50 + 1 = k + 1"
    by simp
  have tot: "(length vids + 50 - 1) div 50 = n_batches (length vids)"
    by (simp add: n_batches_def)
  show ?thesis
    apply (subst add_batches.simps)
    apply (simp only: assms if_True Let_def)
    apply (simp only: batch_at_def [symmetric] num tot p s)
    apply (simp only: batch_round_def batch_events_def append_assoc)
    done
qed

lemma add_batches_run:
  assumes "add_batches yt d vids (50 * k) w = (ev, r, w')"
  shows "\<exists>f. ev = concat (map (batch_round d vids) [k..<f])
                  @ (case r of None \<Rightarrow> [] | Some e \<Rightarrow> batch_events d vids f)
           \<and> (r = None \<longrightarrow> f = n_batches (length vids))
           \<and> (r \<noteq> None \<longrightarrow> k \<le> f \<and> f < n_batches (length vids))
           \<and> perform_all yt (calls_of ev) w
               = (replicate (f - k) None @ (case r of None \<Rightarrow> [] | Some e \<Rightarrow> [Some e]), w')"
  using assms
proof (induction "n_batches (length vids) - k" arbitrary: k w ev r w')
  case 0
  then have "\<not> 50 * k < length vids"
    using n_batches_less [of k "length vids"] by simp
  then have "add_batches yt d vids (50 * k) w = ([], None, w)"
    by (rule add_batches_stop)
  with "0.prems" have "ev = []" "r = None" "w' = w"
    by simp_all
  moreover have "[k..<n_batches (length vids)] = []"
    using "0.hyps" by simp
  ultimately show ?case
    using "0.hyps" by simp
next
  case (Suc m)
  then have km: "k < n_batches (length vids)"
    by simp
  then have lt: "50 * k < length vids"
    by (simp add: n_batches_less)
  obtain res w1 where a: "add_playlist_items yt d (batch_at vids k) False w = (res, w1)"
    by (cases "add_playlist_items yt d (batch_at vids k) False w") auto
  show ?case
  proof (cases res)
    case (Inl e)
    with Suc.prems a have "ev = batch_events d vids k" "r = Some e" "w' = w1"
      by (simp_all add: add_batches_round [OF lt])
    then show ?thesis
      using km a Inl
      by (intro exI [of _ k]) (simp add: batch_events_calls raised_def)
  next
    case (Inr u)
    obtain evs r' w'' where b: "add_batches yt d vids (50 * Suc k) w1 = (evs, r', w'')"
      by (cases "add_batches yt d vids (50 * Suc k) w1") auto
    from Suc.prems a Inr b have ev: "ev = batch_round d vids k @ evs" "r = r'" "w' = w''"
      by (simp_all add: add_batches_round [OF lt])
    have "m = n_batches (length vids) - Suc k"
      using Suc.hyps(2) by simp
    from Suc.hyps(1) [OF this b] obtain f where
      f: "evs = concat (map (batch_round d vids) [Suc k..<f])
                  @ (case r' of None \<Rightarrow> [] | Some e \<Rightarrow> batch_events d vids f)"
        "r' = None \<longrightarrow> f = n_batches (length vids)"
        "r' \<noteq> None \<longrightarrow> Suc k \<le> f \<and> f < n_batches (length vids)"
        "perform_all yt (calls_of evs) w1
           = (replicate (f - Suc k) None @ (case r' of None \<Rightarrow> [] | Some e \<Rightarrow> [Some e]), w'')"
      by blast
    have kf: "k < f"
      using f(2,3) km by (cases r') auto
    then have upt: "[k..<f] = k # [Suc k..<f]"
      by (simp add: upt_rec)
    have rep: "replicate (f - k) (None :: error option) = None # replicate (f - Suc k) None"
      using kf by (cases "f - k") (simp_all add: Suc_diff_Suc)
    have "perform_all yt (calls_of ev) w
           = (replicate (f - k) None @ (case r of None \<Rightarrow> [] | Some e \<Rightarrow> [Some e]), w')"
      unfolding ev calls_of_append batch_round_calls rep
      using a Inr f(4) by (simp add: raised_def)
    moreover have "ev = concat (map (batch_round d vids) [k..<f])
                  @ (case r of None \<Rightarrow> [] | Some e \<Rightarrow> batch_events d vids f)"
      unfolding upt ev using f(1) by simp
    ultimately show ?thesis
      using f(2,3) kf ev by (intro exI [of _ f]) auto
  qed
qed

section \<open>The publish run\<close>

lemma ensure_destination_cases:
  assumes "ensure_destination yt dest dest_title descr privacy w = (ev_c, r, w')"
  shows "(truthy dest \<and> ev_c = [] \<and> r = Inr (the dest) \<and> w' = w)
         \<or> (\<not> truthy dest
             \<and> ev_c = [Status (''Creating new playlist: '' @ dest_title),
                        Call (CreatePlaylist dest_title descr privacy)]
             \<and> create_playlist yt dest_title descr privacy w = (r, w'))"
proof (cases "truthy dest")
  case True
  with assms show ?thesis by (simp add: ensure_destination_def)
next
  case False
  obtain res w1 where c: "create_playlist yt dest_title descr privacy w = (res, w1)"
    by (cases "create_playlist yt dest_title descr privacy w") auto
  with assms False show ?thesis
    by (cases res) (auto simp: ensure_destination_def)
qed

lemma ensure_destination_perform:
  assumes "ensure_destination yt dest dest_title descr privacy w = (ev_c, r, w')"
  shows "perform_all yt (calls_of ev_c) w = ((if truthy dest then [] else [raised r]), w')"
    and "add_calls ev_c = []" and "progress_values ev_c = []"
  using ensure_destination_cases [OF assms]
  by (auto simp: calls_of_def add_calls_def progress_values_def)

lemma listing_events_calls:
  "calls_of (listing_events a) = [NewYTMusic a, GetLibraryPlaylists 10000]"
  "add_calls (listing_events a) = []"
  "progress_values (listing_events a) = []"
  by (simp_all add: listing_events_def calls_of_def add_calls_def progress_values_def)

text \<open>The five ways a publish run can go.\<close>

lemma publish_run_cases:
  assumes "publish_run yt auth_path video_ids dest_title privacy description w0 = (ev, done, w')"
  shows "(\<exists>e. YTMusic yt auth_path w0 = (Inl e, w') \<and> ev = [Call (NewYTMusic auth_path)]
              \<and> done = publish_failed e)
       \<or> (\<exists>u w1 e. YTMusic yt auth_path w0 = (Inr u, w1)
              \<and> get_library_playlists yt 10000 w1 = (Inl e, w')
              \<and> ev = listing_events auth_path \<and> done = publish_failed e)
       \<or> (\<exists>u w1 playlists e. YTMusic yt auth_path w0 = (Inr u, w1)
              \<and> get_library_playlists yt 10000 w1 = (Inr playlists, w')
              \<and> find_dest playlists dest_title = Inl e
              \<and> ev = listing_events auth_path \<and> done = publish_failed e)
       \<or> (\<exists>u w1 playlists w2 found ev_c e. YTMusic yt auth_path w0 = (Inr u, w1)
              \<and> get_library_playlists yt 10000 w1 = (Inr playlists, w2)
              \<and> find_dest playlists dest_title = Inr found
              \<and> ensure_destination yt found dest_title
                    (effective_description description) privacy w2 = (ev_c, Inl e, w')
              \<and> ev = listing_events auth_path @ ev_c \<and> done = publish_failed e)
       \<or> (\<exists>u w1 playlists w2 found ev_c d w3 ev_b r. YTMusic yt auth_path w0 = (Inr u, w1)
              \<and> get_library_playlists yt 10000 w1 = (Inr playlists, w2)
              \<and> find_dest playlists dest_title = Inr found
              \<and> ensure_destination yt found dest_title
                    (effective_description description) privacy w2 = (ev_c, Inr d, w3)
              \<and> add_batches yt d video_ids (50 * 0) w3 = (ev_b, r, w')
              \<and> ev = listing_events auth_path @ ev_c @ ev_b
              \<and> done = (case r of
                           Some e \<Rightarrow> publish_failed e
                         | None \<Rightarrow>
                             PublishDone True
                               (''Successfully added '' @ str_nat (length video_ids) @ '' tracks!'')
                               (''https://music.youtube.com/playlist?list='' @ d)))"
proof -
  obtain r1 w1 where a: "YTMusic yt auth_path w0 = (r1, w1)"
    by (cases "YTMusic yt auth_path w0") auto
  obtain r2 w2 where b: "get_library_playlists yt 10000 w1 = (r2, w2)"
    by (cases "get_library_playlists yt 10000 w1") auto
  show ?thesis
  proof (cases r1)
    case (Inl e)
    with assms a show ?thesis by (simp add: publish_run_def)
  next
    case r1: (Inr u)
    show ?thesis
    proof (cases r2)
      case (Inl e)
      with assms a b r1 show ?thesis by (simp add: publish_run_def listing_events_def)
    next
      case r2: (Inr playlists)
      show ?thesis
      proof (cases "find_dest playlists dest_title")
        case (Inl e)
        with assms a b r1 r2 show ?thesis by (simp add: publish_run_def listing_events_def)
      next
        case fd: (Inr found)
        obtain ev_c r3 w3 where c:
          "ensure_destination yt found dest_title
             (effective_description description) privacy w2 = (ev_c, r3, w3)"
          by (cases "ensure_destination yt found dest_title
             (effective_description description) privacy w2") auto
        show ?thesis
        proof (cases r3)
          case (Inl e)
          with assms a b r1 r2 fd c show ?thesis
            by (simp add: publish_run_def listing_events_def)
        next
          case r3: (Inr d)
          obtain ev_b r w4 where d: "add_batches yt d video_ids (50 * 0) w3 = (ev_b, r, w4)"
            by (cases "add_batches yt d video_ids (50 * 0) w3") auto
          have e: "(if video_ids \<noteq> [] then add_batches yt d video_ids 0 w3 else ([], None, w3))
                     = (ev_b, r, w4)"
            using d add_batches_stop [of 0 video_ids yt d w3] by (cases "video_ids = []") simp_all
          have "ev = listing_events auth_path @ ev_c @ ev_b \<and> w' = w4
                \<and> done = (case r of
                             Some e \<Rightarrow> publish_failed e
                           | None \<Rightarrow>
                               PublishDone True
                                 (''Successfully added '' @ str_nat (length video_ids)
                                    @ '' tracks!'')
                                 (''https://music.youtube.com/playlist?list='' @ d))"
            using assms a b r1 r2 fd c r3 e
            by (cases r) (simp_all add: publish_run_def listing_events_def)
          with a b r1 r2 fd c r3 d show ?thesis by simp
        qed
      qed
    qed
  qed
qed

lemma take_batches: "f \<le> n_batches (length xs) \<Longrightarrow> take f (batches xs) = map (batch_at xs) [0..<f]"
  by (simp add: batches_by_index take_map)

lemma concat_batch_prefix: "concat (map (batch_at xs) [0..<j]) = take (50 * j) xs"
proof (induction j)
  case 0
  then show ?case by simp
next
  case (Suc j)
  have "take (50 * j) xs @ take 50 (drop (50 * j) xs) = take (50 * j + 50) xs"
    by (simp add: take_add)
  with Suc show ?case by (simp add: batch_at_def add.commute)
qed

lemma items_added_so_far:
  "k < length (batches xs) \<Longrightarrow>
     length (concat (take (Suc k) (batches xs))) * 100 div length xs = progress_after (length xs) k"
proof -
  assume "k < length (batches xs)"
  then have "Suc k \<le> n_batches (length xs)"
    by (simp add: batches_by_index)
  then have "concat (take (Suc k) (batches xs)) = take (50 * Suc k) xs"
    by (simp only: take_batches concat_batch_prefix)
  then show ?thesis
    by (simp add: progress_after_def min.commute)
qed

lemma publish_run_listing_failed:
  assumes "YTMusic yt auth_path w0 = (Inr u, w1)"
    and "get_library_playlists yt 10000 w1 = (Inl e, w2)"
  shows "publish_run yt auth_path video_ids dest_title privacy description w0
           = (listing_events auth_path, publish_failed e, w2)"
  using assms by (simp add: publish_run_def listing_events_def)

lemma publish_run_resolved:
  assumes "YTMusic yt auth_path w0 = (Inr u, w1)"
    and "get_library_playlists yt 10000 w1 = (Inr playlists, w2)"
    and "find_dest playlists dest_title = Inr found"
    and "ensure_destination yt found dest_title
           (effective_description description) privacy w2 = (ev_c, Inr d, w3)"
    and "add_batches yt d video_ids (50 * 0) w3 = (ev_b, r, w4)"
  shows "publish_run yt auth_path video_ids dest_title privacy description w0
           = (listing_events auth_path @ ev_c @ ev_b,
              (case r of
                 Some e \<Rightarrow> publish_failed e
               | None \<Rightarrow>
                   PublishDone True
                     (''Successfully added '' @ str_nat (length video_ids) @ '' tracks!'')
                     (''https://music.youtube.com/playlist?list='' @ d)),
              w4)"
proof -
  have e: "(if video_ids \<noteq> [] then add_batches yt d video_ids 0 w3 else ([], None, w3))
             = (ev_b, r, w4)"
    using assms(5) add_batches_stop [of 0 video_ids yt d w3] by (cases "video_ids = []") simp_all
  show ?thesis
    using assms(1-4) e by (cases r) (simp_all add: publish_run_def listing_events_def)
qed

lemma perform_listing:
  assumes "YTMusic yt a w0 = (Inr u, w1)" and "get_library_playlists yt 10000 w1 = (r2, w2)"
  shows "perform_all yt (calls_of (listing_events a)) w0 = ([None, raised r2], w2)"
  using assms by (simp add: listing_events_calls raised_def)

text \<open>
  The trace of a publish run: the calls issued are performed in order and leave the final
  world, every call but a failing last one succeeds, and the add-items calls are the
  batches with the indices below some \<open>f\<close>. A run in which the destination lookup raises
  ends after the two calls of the listing, which succeeded.
\<close>

lemma publish_run_trace:
  assumes "publish_run yt auth_path video_ids dest_title privacy description w0 = (ev, done, w')"
  shows "(\<exists>e playlists.
            done = publish_failed e
            \<and> fst (get_library_playlists yt 10000 (snd (YTMusic yt auth_path w0))) = Inr playlists
            \<and> find_dest playlists dest_title = Inl e
            \<and> ev = listing_events auth_path
            \<and> perform_all yt (calls_of ev) w0 = ([None, None], w'))
       \<or> (\<exists>p d f fail.
           perform_all yt (calls_of ev) w0
             = (replicate p None @ (case fail of None \<Rightarrow> [] | Some e \<Rightarrow> [Some e]), w')
           \<and> done = (case fail of
                       Some e \<Rightarrow> publish_failed e
                     | None \<Rightarrow>
                         PublishDone True
                           (''Successfully added '' @ str_nat (length video_ids) @ '' tracks!'')
                           (''https://music.youtube.com/playlist?list='' @ d))
           \<and> f \<le> n_batches (length video_ids)
           \<and> add_calls ev = map (\<lambda>j. AddPlaylistItems d (batch_at video_ids j) False) [0..<f]
           \<and> progress_values ev
               = map (progress_after (length video_ids))
                   [0..<(case fail of None \<Rightarrow> f | Some e \<Rightarrow> f - 1)]
           \<and> (fail = None \<longrightarrow> f = n_batches (length video_ids)
                 \<and> (\<exists>ev0. ev = ev0 @ concat (map (batch_round d video_ids) [0..<f])
                       \<and> add_calls ev0 = [] \<and> progress_values ev0 = [])))"
  using publish_run_cases [OF assms]
proof (elim disjE exE conjE)
  fix e
  assume a: "YTMusic yt auth_path w0 = (Inl e, w')" "ev = [Call (NewYTMusic auth_path)]"
    "done = publish_failed e"
  show ?thesis
    by (rule disjI2, rule exI [of _ 0], rule exI [of _ "[]"], rule exI [of _ 0],
        rule exI [of _ "Some e"])
      (simp add: a calls_of_def add_calls_def progress_values_def raised_def)
next
  fix u w1 playlists e
  assume a: "YTMusic yt auth_path w0 = (Inr u, w1)"
    "get_library_playlists yt 10000 w1 = (Inr playlists, w')"
    "find_dest playlists dest_title = Inl e"
    "ev = listing_events auth_path" "done = publish_failed e"
  have "perform_all yt (calls_of ev) w0 = ([None, None], w')"
    using perform_listing [OF a(1,2)] a(4) by (simp add: raised_def)
  then show ?thesis
    using a by (intro disjI1 exI [of _ e] exI [of _ playlists]) simp
next
  fix u w1 e
  assume a: "YTMusic yt auth_path w0 = (Inr u, w1)"
    "get_library_playlists yt 10000 w1 = (Inl e, w')"
    "ev = listing_events auth_path" "done = publish_failed e"
  have "perform_all yt (calls_of ev) w0 = (replicate 1 None @ [Some e], w')"
    using perform_listing [OF a(1,2)] a(3) by (simp add: raised_def)
  then show ?thesis
    by (intro disjI2 exI [of _ 1] exI [of _ "[]"] exI [of _ 0] exI [of _ "Some e"])
      (simp add: a listing_events_calls)
next
  fix u w1 playlists w2 found ev_c e
  assume fd: "find_dest playlists dest_title = Inr found"
  assume a: "YTMusic yt auth_path w0 = (Inr u, w1)"
    "get_library_playlists yt 10000 w1 = (Inr playlists, w2)"
    "ensure_destination yt found dest_title
       (effective_description description) privacy w2 = (ev_c, Inl e, w')"
    "ev = listing_events auth_path @ ev_c" "done = publish_failed e"
  have nt: "\<not> truthy found"
    using ensure_destination_cases [OF a(3)] by auto
  have "perform_all yt (calls_of ev) w0 = (replicate 2 None @ [Some e], w')"
    unfolding a(4) calls_of_append perform_all_append
    using perform_listing [OF a(1,2)] ensure_destination_perform(1) [OF a(3)] nt
    by (simp add: raised_def numeral_2_eq_2)
  then show ?thesis
    using ensure_destination_perform(2,3) [OF a(3)]
    by (intro disjI2 exI [of _ 2] exI [of _ "[]"] exI [of _ 0] exI [of _ "Some e"])
      (simp add: a listing_events_calls)
next
  fix u w1 playlists w2 found ev_c d w3 ev_b r
  assume fd: "find_dest playlists dest_title = Inr found"
  assume a: "YTMusic yt auth_path w0 = (Inr u, w1)"
    "get_library_playlists yt 10000 w1 = (Inr playlists, w2)"
    "ensure_destination yt found dest_title
       (effective_description description) privacy w2 = (ev_c, Inr d, w3)"
    "add_batches yt d video_ids (50 * 0) w3 = (ev_b, r, w')"
    "ev = listing_events auth_path @ ev_c @ ev_b"
    "done = (case r of
               Some e \<Rightarrow> publish_failed e
             | None \<Rightarrow>
                 PublishDone True
                   (''Successfully added '' @ str_nat (length video_ids) @ '' tracks!'')
                   (''https://music.youtube.com/playlist?list='' @ d))"
  let ?c = "if truthy found then 0 else (1::nat)"
  from add_batches_run [OF a(4)] obtain f where
    f: "ev_b = concat (map (batch_round d video_ids) [0..<f])
                  @ (case r of None \<Rightarrow> [] | Some e \<Rightarrow> batch_events d video_ids f)"
       "r = None \<longrightarrow> f = n_batches (length video_ids)"
       "r \<noteq> None \<longrightarrow> f < n_batches (length video_ids)"
       "perform_all yt (calls_of ev_b) w3
          = (replicate f None @ (case r of None \<Rightarrow> [] | Some e \<Rightarrow> [Some e]), w')"
    by auto
  have pc: "perform_all yt (calls_of ev_c) w2 = (replicate ?c None, w3)"
    using ensure_destination_perform(1) [OF a(3)] by (simp add: raised_def)
  have perf: "perform_all yt (calls_of ev) w0
      = (replicate (2 + ?c + f) None @ (case r of None \<Rightarrow> [] | Some e \<Rightarrow> [Some e]), w')"
    unfolding a(5) calls_of_append perform_all_append
    using perform_listing [OF a(1,2)] pc f(4)
    by (simp add: raised_def replicate_add numeral_2_eq_2)
  have ac: "add_calls ev = add_calls ev_b" "progress_values ev = progress_values ev_b"
    using ensure_destination_perform(2,3) [OF a(3)] by (simp_all add: a(5) listing_events_calls)
  show ?thesis
  proof (cases r)
    case None
    with f have fm: "f = n_batches (length video_ids)"
      and evb: "ev_b = concat (map (batch_round d video_ids) [0..<f])"
      by simp_all
    have "ev = (listing_events auth_path @ ev_c) @ concat (map (batch_round d video_ids) [0..<f])"
      "add_calls (listing_events auth_path @ ev_c) = []"
      "progress_values (listing_events auth_path @ ev_c) = []"
      using ensure_destination_perform(2,3) [OF a(3)]
      by (simp_all add: a(5) evb listing_events_calls)
    then have "\<exists>ev0. ev = ev0 @ concat (map (batch_round d video_ids) [0..<f])
                 \<and> add_calls ev0 = [] \<and> progress_values ev0 = []"
      by blast
    then show ?thesis
      using perf None fm a(6) ac
      by (intro disjI2 exI [of _ "2 + ?c + f"] exI [of _ d] exI [of _ f] exI [of _ None])
        (simp add: evb rounds_calls)
  next
    case (Some e)
    with f have fm: "f < n_batches (length video_ids)"
      and evb: "ev_b = concat (map (batch_round d video_ids) [0..<f]) @ batch_events d video_ids f"
      by simp_all
    show ?thesis
      using perf Some fm a(6) ac
      by (intro disjI2 exI [of _ "2 + ?c + f"] exI [of _ d] exI [of _ "Suc f"]
          exI [of _ "Some e"])
        (simp add: evb rounds_calls batch_events_calls)
  qed
qed

text \<open>
  C9. In every publish run the calls issued, performed in order from the initial world,
  leave exactly the final world: the run does nothing to the remote library but its
  calls. When a call raises an exception \<open>e\<close>, that call is the last one issued (nothing
  is retried and nothing is undone), every call before it succeeded, and the terminal
  signal is a failure whose message ends with the text of \<open>e\<close> and whose URL is empty. A
  run in which no call raises ends in success, or, when the title comparison of the
  destination lookup raises on an entry of the listing, in the failure signal of that
  exception right after the listing. The add-items calls are the first \<open>f\<close> batches, in
  order and once each.
\<close>

theorem publish_failure_aborts:
  assumes "publish_run yt auth_path video_ids dest_title privacy description w0 = (ev, done, w')"
  shows "\<exists>outcomes d f.
           perform_all yt (calls_of ev) w0 = (outcomes, w')
           \<and> ((\<exists>msg url. done = PublishDone True msg url \<and> list_all (\<lambda>out. out = None) outcomes)
              \<or> (\<exists>e. done = PublishDone False (''Publishing failed: '' @ str_error e) []
                      \<and> outcomes = replicate (length outcomes - 1) None @ [Some e])
              \<or> (\<exists>e playlists.
                    done = PublishDone False (''Publishing failed: '' @ str_error e) []
                    \<and> list_all (\<lambda>out. out = None) outcomes
                    \<and> fst (get_library_playlists yt 10000 (snd (YTMusic yt auth_path w0)))
                        = Inr playlists
                    \<and> find_dest playlists dest_title = Inl e
                    \<and> calls_of ev = [NewYTMusic auth_path, GetLibraryPlaylists 10000]))
           \<and> (\<forall>e. Some e \<in> set outcomes \<longrightarrow>
                 done = PublishDone False (''Publishing failed: '' @ str_error e) []
                 \<and> outcomes = replicate (length outcomes - 1) None @ [Some e])
           \<and> f \<le> length (batches video_ids)
           \<and> add_calls ev = map (\<lambda>b. AddPlaylistItems d b False) (take f (batches video_ids))"
  using publish_run_trace [OF assms]
proof (elim disjE exE conjE)
  fix e playlists
  assume t: "done = publish_failed e"
    "fst (get_library_playlists yt 10000 (snd (YTMusic yt auth_path w0))) = Inr playlists"
    "find_dest playlists dest_title = Inl e"
    "ev = listing_events auth_path"
    "perform_all yt (calls_of ev) w0 = ([None, None], w')"
  have third: "\<exists>e playlists.
                    done = PublishDone False (''Publishing failed: '' @ str_error e) []
                    \<and> list_all (\<lambda>out. out = None) [None, None]
                    \<and> fst (get_library_playlists yt 10000 (snd (YTMusic yt auth_path w0)))
                        = Inr playlists
                    \<and> find_dest playlists dest_title = Inl e
                    \<and> calls_of ev = [NewYTMusic auth_path, GetLibraryPlaylists 10000]"
    using t by (intro exI [of _ e] exI [of _ playlists])
      (simp add: publish_failed_def listing_events_calls)
  show ?thesis
    using t(5) third
    by (intro exI [of _ "[None, None]"] exI [of _ "[]"] exI [of _ 0])
      (simp add: t(4) listing_events_calls)
next
  fix p d f fail
  assume t: "perform_all yt (calls_of ev) w0
             = (replicate p None @ (case fail of None \<Rightarrow> [] | Some e \<Rightarrow> [Some e]), w')"
       "done = (case fail of
                  Some e \<Rightarrow> publish_failed e
                | None \<Rightarrow>
                    PublishDone True
                      (''Successfully added '' @ str_nat (length video_ids) @ '' tracks!'')
                      (''https://music.youtube.com/playlist?list='' @ d))"
       "f \<le> n_batches (length video_ids)"
       "add_calls ev = map (\<lambda>j. AddPlaylistItems d (batch_at video_ids j) False) [0..<f]"
  have calls: "add_calls ev = map (\<lambda>b. AddPlaylistItems d b False) (take f (batches video_ids))"
    using t(3,4) by (simp add: take_batches)
  have len: "f \<le> length (batches video_ids)"
    using t(3) by (simp add: batches_by_index)
  show ?thesis
  proof (cases fail)
    case None
    with t(1,2) calls len show ?thesis
      by (intro exI [of _ "replicate p None"] exI [of _ d] exI [of _ f])
        (simp add: list_all_iff)
  next
    case (Some e)
    with t(1,2) calls len show ?thesis
      by (intro exI [of _ "replicate p None @ [Some e]"] exI [of _ d] exI [of _ f])
        (auto simp: publish_failed_def)
  qed
qed

text \<open>
  C5, as the code has it. For a non-empty list of \<open>n\<close> identifiers and a publish run that
  ends in success (no remote call raised): the batches are \<open>video_ids\<close> cut in input order
  into \<open>ceil(n/50)\<close> pieces, each of 50 identifiers but a last one of 1 to 50; the events
  of the run end with one round per batch, in order, made of a status, the add-items call
  for that batch with \<^verbatim>\<open>duplicates=False\<close>, and the progress
  \<open>floor(items_added_so_far * 100 / n)\<close>; the progress values are non-decreasing and the
  last one is 100.
\<close>

theorem publish_batches_and_progress:
  assumes "video_ids \<noteq> []"
    and "publish_run yt auth_path video_ids dest_title privacy description w0
           = (ev, PublishDone True msg url, w')"
  shows "\<exists>d ev0.
           url = ''https://music.youtube.com/playlist?list='' @ d
           \<and> ev = ev0 @ concat (map (batch_round d video_ids) [0..<length (batches video_ids)])
           \<and> add_calls ev0 = [] \<and> progress_values ev0 = []
           \<and> add_calls ev = map (\<lambda>b. AddPlaylistItems d b False) (batches video_ids)
           \<and> progress_values ev
               = map (\<lambda>k. length (concat (take (Suc k) (batches video_ids))) * 100
                            div length video_ids)
                   [0..<length (batches video_ids)]
           \<and> length (batches video_ids) = (length video_ids + 49) div 50
           \<and> concat (batches video_ids) = video_ids
           \<and> (\<forall>j < length (batches video_ids).
                 length (batches video_ids ! j)
                   = (if Suc j < length (batches video_ids) then 50
                      else length video_ids - 50 * j)
                 \<and> 0 < length (batches video_ids ! j) \<and> length (batches video_ids ! j) \<le> 50)
           \<and> sorted (progress_values ev) \<and> last (progress_values ev) = 100"
proof -
  let ?n = "length video_ids"
  let ?m = "length (batches video_ids)"
  have m: "?m = n_batches ?n"
    by (simp add: batches_by_index)
  have "\<not> (\<exists>e playlists. PublishDone True msg url = publish_failed e
              \<and> fst (get_library_playlists yt 10000 (snd (YTMusic yt auth_path w0)))
                  = Inr playlists
              \<and> find_dest playlists dest_title = Inl e
              \<and> ev = listing_events auth_path
              \<and> perform_all yt (calls_of ev) w0 = ([None, None], w'))"
    by (simp add: publish_failed_def)
  with publish_run_trace [OF assms(2)] obtain d f fail where
    t: "PublishDone True msg url = (case fail of
                  Some e \<Rightarrow> publish_failed e
                | None \<Rightarrow>
                    PublishDone True
                      (''Successfully added '' @ str_nat ?n @ '' tracks!'')
                      (''https://music.youtube.com/playlist?list='' @ d))"
       "add_calls ev = map (\<lambda>j. AddPlaylistItems d (batch_at video_ids j) False) [0..<f]"
       "progress_values ev
          = map (progress_after ?n) [0..<(case fail of None \<Rightarrow> f | Some e \<Rightarrow> f - 1)]"
       "fail = None \<longrightarrow> f = n_batches ?n
                 \<and> (\<exists>ev0. ev = ev0 @ concat (map (batch_round d video_ids) [0..<f])
                       \<and> add_calls ev0 = [] \<and> progress_values ev0 = [])"
    by blast
  from t(1) have none: "fail = None"
    by (cases fail) (simp_all add: publish_failed_def)
  with t have url: "url = ''https://music.youtube.com/playlist?list='' @ d"
    and f: "f = ?m"
    and pv: "progress_values ev = map (progress_after ?n) [0..<?m]"
    by (simp_all add: m)
  from t(4) none f obtain ev0 where
    ev0: "ev = ev0 @ concat (map (batch_round d video_ids) [0..<?m])"
      "add_calls ev0 = []" "progress_values ev0 = []"
    by auto
  have calls: "add_calls ev = map (\<lambda>b. AddPlaylistItems d b False) (batches video_ids)"
    using t(2) f by (simp add: batches_by_index)
  have pv': "progress_values ev
               = map (\<lambda>k. length (concat (take (Suc k) (batches video_ids))) * 100 div ?n) [0..<?m]"
    unfolding pv by (rule map_cong [OF refl]) (simp add: items_added_so_far)
  have pos: "0 < ?m"
    using assms(1) by (simp add: m n_batches_pos)
  have "last (progress_values ev) = progress_after ?n (?m - 1)"
    unfolding pv using pos by (simp add: last_map)
  then have last: "last (progress_values ev) = 100"
    using assms(1) progress_after_last [of ?n] by (simp add: m)
  have sorted: "sorted (progress_values ev)"
    unfolding pv by (rule sorted_progress)
  have sizes: "\<forall>j < ?m. length (batches video_ids ! j)
                   = (if Suc j < ?m then 50 else ?n - 50 * j)
                 \<and> 0 < length (batches video_ids ! j) \<and> length (batches video_ids ! j) \<le> 50"
    using batches_sizes [of _ video_ids] by blast
  have lb: "?m = (?n + 49) div 50"
    by (rule length_batches)
  have cb: "concat (batches video_ids) = video_ids"
    by (rule concat_batches)
  show ?thesis
    by (intro exI [of _ d] exI [of _ ev0] conjI)
      (rule url ev0 calls pv' lb cb sizes sorted last)+
qed

section \<open>Publish runs against the scripted library\<close>

lemma demo_add_ok:
  "calls_made w \<notin> set failing \<Longrightarrow>
     add_playlist_items (demo failing) d b dup w
       = (Inr (), w\<lparr>calls_made := calls_made w + 1, stored := stored w @ [(d, b)]\<rparr>)"
  by (simp add: demo_calls demo_add_def)

lemma demo_add_failed:
  "calls_made w \<in> set failing \<Longrightarrow>
     add_playlist_items (demo failing) d b dup w
       = (Inl (Error ''HTTP 503''), w\<lparr>calls_made := calls_made w + 1\<rparr>)"
  by (simp add: demo_calls demo_add_def)

lemma length_demo_ids: "length demo_ids = 120"
  by (simp add: demo_ids_def)

lemma demo_progress:
  "progress_after 120 0 = 41" "progress_after 120 1 = 83" "progress_after 120 (Suc 0) = 83"
  "progress_after 120 2 = 100"
  by (simp_all add: progress_after_def)

lemma demo_add_batches_ok:
  "add_batches (demo []) d demo_ids (50 * 0) w
     = (batch_round d demo_ids 0 @ batch_round d demo_ids 1 @ batch_round d demo_ids 2,
        None,
        w\<lparr>calls_made := calls_made w + 3,
          stored := stored w @ [(d, batch_at demo_ids 0), (d, batch_at demo_ids 1),
                                (d, batch_at demo_ids 2)]\<rparr>)"
proof -
  have s3: "add_batches (demo []) d demo_ids (50 * 3) w3 = ([], None, w3)" for w3
    by (rule add_batches_stop) (simp add: length_demo_ids)
  have s2: "add_batches (demo []) d demo_ids (50 * 2) w2
              = (batch_round d demo_ids 2, None,
                 w2\<lparr>calls_made := calls_made w2 + 1,
                    stored := stored w2 @ [(d, batch_at demo_ids 2)]\<rparr>)" for w2
    using add_batches_round [of 2 demo_ids "demo []" d w2] s3
    by (simp add: length_demo_ids demo_add_ok)
  have s1: "add_batches (demo []) d demo_ids (50 * 1) w1
              = (batch_round d demo_ids 1 @ batch_round d demo_ids 2, None,
                 w1\<lparr>calls_made := calls_made w1 + 2,
                    stored := stored w1 @ [(d, batch_at demo_ids 1), (d, batch_at demo_ids 2)]\<rparr>)"
    for w1
    using add_batches_round [of 1 demo_ids "demo []" d w1] s2
    by (simp add: length_demo_ids demo_add_ok)
  show ?thesis
    using add_batches_round [of 0 demo_ids "demo []" d w] s1
    by (simp add: length_demo_ids demo_add_ok)
qed

lemma demo_add_batches_second_fails:
  "add_batches (demo [3]) d demo_ids (50 * 0) \<lparr> calls_made = 2, stored = [] \<rparr>
     = (batch_round d demo_ids 0 @ batch_events d demo_ids 1,
        Some (Error ''HTTP 503''),
        \<lparr> calls_made = 4, stored = [(d, batch_at demo_ids 0)] \<rparr>)"
proof -
  have s1: "add_batches (demo [3]) d demo_ids (50 * 1)
              \<lparr> calls_made = 3, stored = [(d, batch_at demo_ids 0)] \<rparr>
              = (batch_events d demo_ids 1, Some (Error ''HTTP 503''),
                 \<lparr> calls_made = 4, stored = [(d, batch_at demo_ids 0)] \<rparr>)"
    using add_batches_round [of 1 demo_ids "demo [3]" d
        "\<lparr> calls_made = 3, stored = [(d, batch_at demo_ids 0)] \<rparr>"]
    by (simp add: length_demo_ids demo_add_failed)
  show ?thesis
    using add_batches_round [of 0 demo_ids "demo [3]" d "\<lparr> calls_made = 2, stored = [] \<rparr>"] s1
    by (simp add: length_demo_ids demo_add_ok)
qed

lemma demo_listing:
  "0 \<notin> set failing \<Longrightarrow>
     YTMusic (demo failing) a demo_start = (Inr (), \<lparr> calls_made = 1, stored = [] \<rparr>)"
  "1 \<notin> set failing \<Longrightarrow>
     get_library_playlists (demo failing) 10000 \<lparr> calls_made = 1, stored = [] \<rparr>
       = (Inr demo_library, \<lparr> calls_made = 2, stored = [] \<rparr>)"
  by (simp_all add: demo_calls demo_reply_def demo_start_def)

lemma demo_ensure_found:
  "ensure_destination yt (Some ''PLD'') t d p w = ([], Inr ''PLD'', w)"
  by (simp add: ensure_destination_def truthy_def)

lemma str_nat_demo:
  "str_nat 120 = ''120''" "str_nat 0 = ''0''" "str_nat 1 = ''1''" "str_nat (Suc 0) = ''1''"
  by code_simp+

lemma demo_publish_ok:
  "publish_run (demo []) ''browser.json'' demo_ids ''My mix'' ''PRIVATE'' [] demo_start
     = (listing_events ''browser.json''
          @ batch_round ''PLD'' demo_ids 0 @ batch_round ''PLD'' demo_ids 1
          @ batch_round ''PLD'' demo_ids 2,
        PublishDone True ''Successfully added 120 tracks!''
          ''https://music.youtube.com/playlist?list=PLD'',
        \<lparr> calls_made = 5,
          stored = [(''PLD'', batch_at demo_ids 0), (''PLD'', batch_at demo_ids 1),
                    (''PLD'', batch_at demo_ids 2)] \<rparr>)"
proof -
  have a: "YTMusic (demo []) ''browser.json'' demo_start
             = (Inr (), \<lparr> calls_made = 1, stored = [] \<rparr>)"
    by (rule demo_listing) simp
  have b: "get_library_playlists (demo []) 10000 \<lparr> calls_made = 1, stored = [] \<rparr>
             = (Inr demo_library, \<lparr> calls_made = 2, stored = [] \<rparr>)"
    by (rule demo_listing) simp
  have c: "ensure_destination (demo []) (Some ''PLD'') ''My mix''
             (effective_description []) ''PRIVATE'' \<lparr> calls_made = 2, stored = [] \<rparr>
             = ([], Inr ''PLD'', \<lparr> calls_made = 2, stored = [] \<rparr>)"
    by (simp add: demo_ensure_found)
  show ?thesis
    using publish_run_resolved [OF a b demo_find_dest c demo_add_batches_ok]
    by (simp add: length_demo_ids str_nat_demo)
qed

lemma demo_publish_second_fails:
  "publish_run (demo [3]) ''browser.json'' demo_ids ''My mix'' ''PRIVATE'' [] demo_start
     = (listing_events ''browser.json''
          @ batch_round ''PLD'' demo_ids 0 @ batch_events ''PLD'' demo_ids 1,
        PublishDone False ''Publishing failed: HTTP 503'' [],
        \<lparr> calls_made = 4, stored = [(''PLD'', batch_at demo_ids 0)] \<rparr>)"
proof -
  have a: "YTMusic (demo [3]) ''browser.json'' demo_start
             = (Inr (), \<lparr> calls_made = 1, stored = [] \<rparr>)"
    by (rule demo_listing) simp
  have b: "get_library_playlists (demo [3]) 10000 \<lparr> calls_made = 1, stored = [] \<rparr>
             = (Inr demo_library, \<lparr> calls_made = 2, stored = [] \<rparr>)"
    by (rule demo_listing) simp
  have c: "ensure_destination (demo [3]) (Some ''PLD'') ''My mix''
             (effective_description []) ''PRIVATE'' \<lparr> calls_made = 2, stored = [] \<rparr>
             = ([], Inr ''PLD'', \<lparr> calls_made = 2, stored = [] \<rparr>)"
    by (simp add: demo_ensure_found)
  show ?thesis
    using publish_run_resolved [OF a b demo_find_dest c demo_add_batches_second_fails]
    by (simp add: publish_failed_def)
qed

lemma length_perform_all: "length (fst (perform_all yt cs w)) = length cs"
  by (induction cs arbitrary: w) (simp_all add: case_prod_beta)

lemma n_batches_demo: "n_batches 120 = 3"
  by (simp add: n_batches_def)

lemma batches_demo_ids:
  "batches demo_ids = [batch_at demo_ids 0, batch_at demo_ids 1, batch_at demo_ids 2]"
proof -
  have "[0..<3] = [0, 1, 2]"
    by (simp add: upt_rec)
  then show ?thesis
    by (simp add: batches_by_index length_demo_ids n_batches_demo)
qed

theorem publish_failure_aborts_witness:
  "publish_run (demo [3]) ''browser.json'' demo_ids ''My mix'' ''PRIVATE'' [] demo_start
     = (listing_events ''browser.json''
          @ batch_round ''PLD'' demo_ids 0 @ batch_events ''PLD'' demo_ids 1,
        PublishDone False ''Publishing failed: HTTP 503'' [],
        \<lparr> calls_made = 4, stored = [(''PLD'', batch_at demo_ids 0)] \<rparr>)
   \<and> perform_all (demo [3])
        (calls_of (listing_events ''browser.json''
           @ batch_round ''PLD'' demo_ids 0 @ batch_events ''PLD'' demo_ids 1)) demo_start
       = ([None, None, None, Some (Error ''HTTP 503'')],
          \<lparr> calls_made = 4, stored = [(''PLD'', batch_at demo_ids 0)] \<rparr>)
   \<and> add_calls (listing_events ''browser.json''
         @ batch_round ''PLD'' demo_ids 0 @ batch_events ''PLD'' demo_ids 1)
       = [AddPlaylistItems ''PLD'' (batch_at demo_ids 0) False,
          AddPlaylistItems ''PLD'' (batch_at demo_ids 1) False]
   \<and> length (batch_at demo_ids 0) = 50"
proof -
  let ?ev = "listing_events ''browser.json''
               @ batch_round ''PLD'' demo_ids 0 @ batch_events ''PLD'' demo_ids 1"
  let ?w = "\<lparr> calls_made = 4, stored = [(''PLD'', batch_at demo_ids 0)] \<rparr>"
  have four: "calls_of ?ev
      = [NewYTMusic ''browser.json'', GetLibraryPlaylists 10000,
         AddPlaylistItems ''PLD'' (batch_at demo_ids 0) False,
         AddPlaylistItems ''PLD'' (batch_at demo_ids 1) False]"
    by (simp add: listing_events_calls batch_round_calls batch_events_calls)
  from publish_failure_aborts [OF demo_publish_second_fails] obtain outcomes where
    p: "perform_all (demo [3]) (calls_of ?ev) demo_start = (outcomes, ?w)"
    and cases: "(\<exists>e. ''Publishing failed: HTTP 503'' = ''Publishing failed: '' @ str_error e
                    \<and> outcomes = replicate (length outcomes - 1) None @ [Some e])
                \<or> calls_of ?ev = [NewYTMusic ''browser.json'', GetLibraryPlaylists 10000]"
    by auto
  from cases four obtain e where
    m: "''Publishing failed: HTTP 503'' = ''Publishing failed: '' @ str_error e"
    and o: "outcomes = replicate (length outcomes - 1) None @ [Some e]"
    by auto
  have e: "e = Error ''HTTP 503''"
    using m by (cases e) simp
  have "length outcomes = length (calls_of ?ev)"
    using length_perform_all [of "demo [3]" "calls_of ?ev" demo_start] p by simp
  then have "length outcomes = 4"
    by (simp add: listing_events_calls batch_round_calls batch_events_calls)
  with o e have "outcomes = [None, None, None, Some (Error ''HTTP 503'')]"
    by (simp add: numeral_3_eq_3)
  with p show ?thesis
    using demo_publish_second_fails
    by (simp add: listing_events_calls batch_round_calls batch_events_calls length_batch_at
        length_demo_ids)
qed

theorem publish_batches_and_progress_witness:
  "demo_ids \<noteq> []
   \<and> publish_run (demo []) ''browser.json'' demo_ids ''My mix'' ''PRIVATE'' [] demo_start
     = (listing_events ''browser.json''
          @ batch_round ''PLD'' demo_ids 0 @ batch_round ''PLD'' demo_ids 1
          @ batch_round ''PLD'' demo_ids 2,
        PublishDone True ''Successfully added 120 tracks!''
          ''https://music.youtube.com/playlist?list=PLD'',
        \<lparr> calls_made = 5,
          stored = [(''PLD'', batch_at demo_ids 0), (''PLD'', batch_at demo_ids 1),
                    (''PLD'', batch_at demo_ids 2)] \<rparr>)
   \<and> length demo_ids = 120
   \<and> map length (batches demo_ids) = [50, 50, 20]
   \<and> add_calls (listing_events ''browser.json''
         @ batch_round ''PLD'' demo_ids 0 @ batch_round ''PLD'' demo_ids 1
         @ batch_round ''PLD'' demo_ids 2)
       = map (\<lambda>b. AddPlaylistItems ''PLD'' b False) (batches demo_ids)
   \<and> progress_values (listing_events ''browser.json''
         @ batch_round ''PLD'' demo_ids 0 @ batch_round ''PLD'' demo_ids 1
         @ batch_round ''PLD'' demo_ids 2) = [41, 83, 100]
   \<and> sorted (progress_values (listing_events ''browser.json''
         @ batch_round ''PLD'' demo_ids 0 @ batch_round ''PLD'' demo_ids 1
         @ batch_round ''PLD'' demo_ids 2))
   \<and> last (progress_values (listing_events ''browser.json''
         @ batch_round ''PLD'' demo_ids 0 @ batch_round ''PLD'' demo_ids 1
         @ batch_round ''PLD'' demo_ids 2)) = 100"
proof -
  let ?ev = "listing_events ''browser.json''
          @ batch_round ''PLD'' demo_ids 0 @ batch_round ''PLD'' demo_ids 1
          @ batch_round ''PLD'' demo_ids 2"
  have ne: "demo_ids \<noteq> []"
    using length_demo_ids by auto
  from publish_batches_and_progress [OF ne demo_publish_ok] obtain d where
    d: "''https://music.youtube.com/playlist?list=PLD''
          = ''https://music.youtube.com/playlist?list='' @ d"
    and calls: "add_calls ?ev = map (\<lambda>b. AddPlaylistItems d b False) (batches demo_ids)"
    and sorted: "sorted (progress_values ?ev)"
    and last: "last (progress_values ?ev) = 100"
    by blast
  from d have "d = ''PLD''"
    by simp
  moreover have "progress_values ?ev = [41, 83, 100]"
    by (simp add: listing_events_calls batch_round_calls length_demo_ids demo_progress)
  moreover have "map length (batches demo_ids) = [50, 50, 20]"
    by (simp add: batches_demo_ids length_batch_at length_demo_ids)
  ultimately show ?thesis
    using ne demo_publish_ok calls sorted last length_demo_ids
    by simp
qed

text \<open>
  C5 as the specification words it fails in a run where an add-items call raises: of the three
  batches of 120 identifiers only two calls are issued, and the only progress value is 41.
\<close>

theorem publish_progress_stops_counterexample:
  "demo_ids \<noteq> []
   \<and> length (batches demo_ids) = 3
   \<and> publish_run (demo [3]) ''browser.json'' demo_ids ''My mix'' ''PRIVATE'' [] demo_start
     = (listing_events ''browser.json''
          @ batch_round ''PLD'' demo_ids 0 @ batch_events ''PLD'' demo_ids 1,
        PublishDone False ''Publishing failed: HTTP 503'' [],
        \<lparr> calls_made = 4, stored = [(''PLD'', batch_at demo_ids 0)] \<rparr>)
   \<and> length (add_calls (listing_events ''browser.json''
         @ batch_round ''PLD'' demo_ids 0 @ batch_events ''PLD'' demo_ids 1)) = 2
   \<and> progress_values (listing_events ''browser.json''
         @ batch_round ''PLD'' demo_ids 0 @ batch_events ''PLD'' demo_ids 1) = [41]"
proof -
  have "demo_ids \<noteq> []"
    using length_demo_ids by auto
  then show ?thesis
    using demo_publish_second_fails
    by (simp add: batches_demo_ids listing_events_calls batch_round_calls batch_events_calls
        length_demo_ids demo_progress)
qed

section \<open>The empty publish and the destination lookup\<close>

lemma n_batches_zero: "n_batches 0 = 0"
  by (simp add: n_batches_def)

lemma publish_empty_no_batches:
  "add_calls (fst (publish_run yt auth_path [] dest_title privacy description w0)) = []
   \<and> progress_values (fst (publish_run yt auth_path [] dest_title privacy description w0)) = []"
proof -
  obtain ev fin w' where
    run: "publish_run yt auth_path [] dest_title privacy description w0 = (ev, fin, w')"
    by (cases "publish_run yt auth_path [] dest_title privacy description w0") auto
  have "add_calls ev = [] \<and> progress_values ev = []"
    using publish_run_trace [OF run]
    by (auto simp: n_batches_zero listing_events_calls split: option.splits)
  with run show ?thesis by simp
qed

text \<open>
  C10, as the code has it. A publish of the empty list issues no add-items call and emits
  no progress, whatever the remote library does. When the client is constructed, the
  library is listed and the destination lookup does not raise, then: with a destination
  found, the run ends after the listing with a success that carries the URL of the found
  playlist; with none found and the creation succeeding, the run creates the playlist and
  ends with a success that carries the URL of the new playlist.
\<close>

theorem publish_empty_list:
  "add_calls (fst (publish_run yt auth_path [] dest_title privacy description w0)) = []
   \<and> progress_values (fst (publish_run yt auth_path [] dest_title privacy description w0)) = []
   \<and> (YTMusic yt auth_path w0 = (Inr u, w1)
        \<and> get_library_playlists yt 10000 w1 = (Inr playlists, w2)
        \<and> find_dest playlists dest_title = Inr dest \<and> truthy dest
      \<longrightarrow> publish_run yt auth_path [] dest_title privacy description w0
            = (listing_events auth_path,
               PublishDone True ''Successfully added 0 tracks!''
                 (''https://music.youtube.com/playlist?list='' @ the dest),
               w2))
   \<and> (YTMusic yt auth_path w0 = (Inr u, w1)
        \<and> get_library_playlists yt 10000 w1 = (Inr playlists, w2)
        \<and> find_dest playlists dest_title = Inr dest \<and> \<not> truthy dest
        \<and> create_playlist yt dest_title (effective_description description) privacy w2
            = (Inr new_id, w3)
      \<longrightarrow> publish_run yt auth_path [] dest_title privacy description w0
            = (listing_events auth_path
                 @ [Status (''Creating new playlist: '' @ dest_title),
                    Call (CreatePlaylist dest_title (effective_description description) privacy)],
               PublishDone True ''Successfully added 0 tracks!''
                 (''https://music.youtube.com/playlist?list='' @ new_id),
               w3))"
proof -
  have stop: "add_batches yt d [] (50 * 0) w = ([], None, w)" for d w
    using add_batches_stop [of 0 "[]" yt d w] by simp
  have found: "publish_run yt auth_path [] dest_title privacy description w0
            = (listing_events auth_path,
               PublishDone True ''Successfully added 0 tracks!''
                 (''https://music.youtube.com/playlist?list='' @ the dest),
               w2)"
    if a: "YTMusic yt auth_path w0 = (Inr u, w1)"
      and b: "get_library_playlists yt 10000 w1 = (Inr playlists, w2)"
      and fd: "find_dest playlists dest_title = Inr dest"
      and c: "truthy dest"
  proof -
    have e: "ensure_destination yt dest dest_title
               (effective_description description) privacy w2
               = ([], Inr (the dest), w2)"
      using c by (simp add: ensure_destination_def)
    show ?thesis
      using publish_run_resolved [OF a b fd e stop] by (simp add: str_nat_demo)
  qed
  have created: "publish_run yt auth_path [] dest_title privacy description w0
            = (listing_events auth_path
                 @ [Status (''Creating new playlist: '' @ dest_title),
                    Call (CreatePlaylist dest_title (effective_description description) privacy)],
               PublishDone True ''Successfully added 0 tracks!''
                 (''https://music.youtube.com/playlist?list='' @ new_id),
               w3)"
    if a: "YTMusic yt auth_path w0 = (Inr u, w1)"
      and b: "get_library_playlists yt 10000 w1 = (Inr playlists, w2)"
      and fd: "find_dest playlists dest_title = Inr dest"
      and c: "\<not> truthy dest"
      and d: "create_playlist yt dest_title (effective_description description) privacy w2
            = (Inr new_id, w3)"
  proof -
    have e: "ensure_destination yt dest dest_title
               (effective_description description) privacy w2
               = ([Status (''Creating new playlist: '' @ dest_title),
                   Call (CreatePlaylist dest_title (effective_description description) privacy)],
                  Inr new_id, w3)"
      using c d by (simp add: ensure_destination_def)
    show ?thesis
      using publish_run_resolved [OF a b fd e stop] by (simp add: str_nat_demo)
  qed
  from publish_empty_no_batches [of yt auth_path dest_title privacy description w0] found created
  show ?thesis by blast
qed

theorem publish_empty_list_witness:
  "YTMusic (demo []) ''browser.json'' demo_start = (Inr (), \<lparr> calls_made = 1, stored = [] \<rparr>)
   \<and> get_library_playlists (demo []) 10000 \<lparr> calls_made = 1, stored = [] \<rparr>
       = (Inr demo_library, \<lparr> calls_made = 2, stored = [] \<rparr>)
   \<and> find_dest demo_library ''My mix'' = Inr (Some ''PLD'')
   \<and> publish_run (demo []) ''browser.json'' [] ''My mix'' ''PRIVATE'' [] demo_start
       = (listing_events ''browser.json'',
          PublishDone True ''Successfully added 0 tracks!''
            ''https://music.youtube.com/playlist?list=PLD'',
          \<lparr> calls_made = 2, stored = [] \<rparr>)
   \<and> find_dest demo_library ''Brand New'' = Inr None
   \<and> create_playlist (demo []) ''Brand New'' ''Auto-merged playlist from YouTube Music''
         ''PRIVATE'' \<lparr> calls_made = 2, stored = [] \<rparr>
       = (Inr ''PL-Brand New'', \<lparr> calls_made = 3, stored = [] \<rparr>)
   \<and> publish_run (demo []) ''browser.json'' [] ''Brand New'' ''PRIVATE'' [] demo_start
       = (listing_events ''browser.json''
            @ [Status ''Creating new playlist: Brand New'',
               Call (CreatePlaylist ''Brand New'' ''Auto-merged playlist from YouTube Music''
                       ''PRIVATE'')],
          PublishDone True ''Successfully added 0 tracks!''
            ''https://music.youtube.com/playlist?list=PL-Brand New'',
          \<lparr> calls_made = 3, stored = [] \<rparr>)
   \<and> add_calls (fst (publish_run (demo []) ''browser.json'' [] ''Brand New'' ''PRIVATE'' []
                        demo_start)) = []
   \<and> progress_values (fst (publish_run (demo []) ''browser.json'' [] ''Brand New'' ''PRIVATE'' []
                              demo_start)) = []"
proof -
  let ?w1 = "\<lparr> calls_made = 1, stored = [] \<rparr>"
  let ?w2 = "\<lparr> calls_made = 2, stored = [] \<rparr>"
  let ?w3 = "\<lparr> calls_made = 3, stored = [] \<rparr>"
  have a: "YTMusic (demo []) ''browser.json'' demo_start = (Inr (), ?w1)"
    by (rule demo_listing) simp
  have b: "get_library_playlists (demo []) 10000 ?w1 = (Inr demo_library, ?w2)"
    by (rule demo_listing) simp
  have c: "truthy (Some ''PLD'')"
    by (simp add: truthy_def)
  have c': "\<not> truthy None"
    by (simp add: truthy_def)
  have d: "create_playlist (demo []) ''Brand New'' (effective_description []) ''PRIVATE'' ?w2
             = (Inr ''PL-Brand New'', ?w3)"
    by (simp add: demo_calls demo_reply_def effective_description_def)
  note t1 = publish_empty_list [where yt = "demo []" and auth_path = "''browser.json''"
      and dest_title = "''My mix''" and privacy = "''PRIVATE''" and description = "[]"
      and ?w0.0 = demo_start and u = "()" and ?w1.0 = ?w1 and playlists = demo_library
      and ?w2.0 = ?w2 and dest = "Some ''PLD''"]
  note t2 = publish_empty_list [where yt = "demo []" and auth_path = "''browser.json''"
      and dest_title = "''Brand New''" and privacy = "''PRIVATE''" and description = "[]"
      and ?w0.0 = demo_start and u = "()" and ?w1.0 = ?w1 and playlists = demo_library
      and ?w2.0 = ?w2 and new_id = "''PL-Brand New''" and ?w3.0 = ?w3 and dest = None]
  have one: "publish_run (demo []) ''browser.json'' [] ''My mix'' ''PRIVATE'' [] demo_start
       = (listing_events ''browser.json'',
          PublishDone True ''Successfully added 0 tracks!''
            ''https://music.youtube.com/playlist?list=PLD'', ?w2)"
    using t1 a b c demo_find_dest by simp
  have two: "publish_run (demo []) ''browser.json'' [] ''Brand New'' ''PRIVATE'' [] demo_start
       = (listing_events ''browser.json''
            @ [Status ''Creating new playlist: Brand New'',
               Call (CreatePlaylist ''Brand New'' ''Auto-merged playlist from YouTube Music''
                       ''PRIVATE'')],
          PublishDone True ''Successfully added 0 tracks!''
            ''https://music.youtube.com/playlist?list=PL-Brand New'', ?w3)"
    using t2 a b c' d demo_find_dest_new by (simp add: effective_description_def)
  have three: "add_calls (fst (publish_run (demo []) ''browser.json'' [] ''Brand New''
                                  ''PRIVATE'' [] demo_start)) = []"
    "progress_values (fst (publish_run (demo []) ''browser.json'' [] ''Brand New''
                                  ''PRIVATE'' [] demo_start)) = []"
    using t2 by blast+
  have d': "create_playlist (demo []) ''Brand New'' ''Auto-merged playlist from YouTube Music''
              ''PRIVATE'' ?w2 = (Inr ''PL-Brand New'', ?w3)"
    using d by (simp add: effective_description_def)
  show ?thesis
    by (intro conjI) (rule a b demo_find_dest one demo_find_dest_new d' two three)+
qed

text \<open>
  C10 as the specification words it fails where the library listing raises: the publish of the
  empty list ends with a failure result and an empty URL.
\<close>

theorem publish_empty_list_fails_counterexample:
  "publish_run (demo [1]) ''browser.json'' [] ''My mix'' ''PRIVATE'' [] demo_start
     = ([Call (NewYTMusic ''browser.json''), Status ''Finding destination playlist...'',
         Call (GetLibraryPlaylists 10000)],
        PublishDone False ''Publishing failed: HTTP 503'' [],
        \<lparr> calls_made = 2, stored = [] \<rparr>)"
proof -
  have a: "YTMusic (demo [1]) ''browser.json'' demo_start
             = (Inr (), \<lparr> calls_made = 1, stored = [] \<rparr>)"
    by (rule demo_listing) simp
  have b: "get_library_playlists (demo [1]) 10000 \<lparr> calls_made = 1, stored = [] \<rparr>
             = (Inl (Error ''HTTP 503''), \<lparr> calls_made = 2, stored = [] \<rparr>)"
    by (simp add: demo_calls demo_reply_def)
  show ?thesis
    using publish_run_listing_failed [OF a b]
    by (simp add: listing_events_def publish_failed_def)
qed









end
